theory Spec2Isabelle
  imports Complex_Main "HOL-Library.Char_ord" "HOL-Library.List_Lexorder"
begin

section \<open>Values, errors and constants of \<open>utils.js\<close>\<close>

text \<open>
  JavaScript numbers are modelled as real numbers: the IEEE rounding of the double
  arithmetic, the infinities and the negative zero are not part of the model. \<open>NaN\<close> is
  a value of its own (\<open>JNaN\<close>) where the validators of the source test for it. Strings are
  \<open>char list\<close>; their comparison \<open>\<le>\<close> is the lexicographic order on character codes,
  which is what \<open>>=\<close> and \<open><=\<close> compute on JavaScript strings of ASCII characters.
\<close>

datatype jsvalue =
    JUndefined
  | JNull
  | JBool bool
  | JNum real
  | JNaN
  | JStr string
  | JArr "jsvalue list"
  | JObj "(string \<times> jsvalue) list"

text \<open>Every \<open>throw\<close> of the source is a constructor; the name says which one.\<close>

datatype error =
    Invalid_location               \<comment> \<open>\<open>validateLocation\<close>: 'Invalid GeoFire location ...'\<close>
  | Invalid_geohash                \<comment> \<open>\<open>validateGeohash\<close>: 'Invalid GeoFire geohash ...'\<close>
  | Criteria_not_object            \<comment> \<open>'query criteria must be an object'\<close>
  | Criteria_nothing_specified     \<comment> \<open>'radius and/or center must be specified'\<close>
  | Criteria_center_and_radius     \<comment> \<open>'... must contain both a center and a radius'\<close>
  | Criteria_unexpected_attribute  \<comment> \<open>'Unexpected attribute ... found in query criteria'\<close>
  | Radius_not_number              \<comment> \<open>'radius must be a number'\<close>
  | Radius_negative                \<comment> \<open>'radius must be greater than or equal to 0'\<close>
  | Precision_not_positive         \<comment> \<open>'precision must be greater than 0'\<close>
  | Precision_too_large            \<comment> \<open>'precision cannot be greater than 22'\<close>
  | FirebaseRef_not_object         \<comment> \<open>'firebaseRef must be an instance of Firestore'\<close>
  | Invalid_event_type             \<comment> \<open>'event type must be 'ready', ...'\<close>
  | Not_valid_geohash_query        \<comment> \<open>\<open>_queryToString\<close>: 'Not a valid geohash query: ...'\<close>
  | Invalid_internal_state         \<comment> \<open>\<open>_stringToQuery\<close>: 'Invalid internal state! ...'\<close>
  | Internal_state_error           \<comment> \<open>'Internal State error, trying to remove location that is still in query'\<close>
  | Unexpected_location_object     \<comment> \<open>\<open>decodeGeoFireObject\<close>: 'Unexpected location object encountered: ...'\<close>
  | TypeError                      \<comment> \<open>raised by the JavaScript runtime itself\<close>

definition g_GEOHASH_PRECISION :: int where
  "g_GEOHASH_PRECISION = 10"

definition g_BASE32 :: string where
  "g_BASE32 = ''0123456789bcdefghjkmnpqrstuvwxyz''"

definition g_EARTH_MERI_CIRCUMFERENCE :: real where
  "g_EARTH_MERI_CIRCUMFERENCE = 40007860"

definition g_METERS_PER_DEGREE_LATITUDE :: real where
  "g_METERS_PER_DEGREE_LATITUDE = 110574"

definition g_BITS_PER_CHAR :: int where
  "g_BITS_PER_CHAR = 5"

definition g_MAXIMUM_BITS_PRECISION :: int where
  "g_MAXIMUM_BITS_PRECISION = 22 * g_BITS_PER_CHAR"

definition g_EARTH_EQ_RADIUS :: real where
  "g_EARTH_EQ_RADIUS = 6378137"

definition g_E2 :: real where
  "g_E2 = 669447819799 / 100000000000000"

definition g_EPSILON :: real where
  "g_EPSILON = 1 / 10 ^ 12"

section \<open>String and integer primitives of JavaScript\<close>

text \<open>\<open>s.indexOf(t)\<close>: the first position at which \<open>t\<close> occurs in \<open>s\<close>, or \<open>-1\<close>;
  the empty string occurs at position 0.\<close>

fun indexOf_from :: "string \<Rightarrow> string \<Rightarrow> int \<Rightarrow> int" where
  "indexOf_from [] t i = (if t = [] then i else - 1)"
| "indexOf_from (c # cs) t i =
     (if take (length t) (c # cs) = t then i else indexOf_from cs t (i + 1))"

definition indexOf :: "string \<Rightarrow> string \<Rightarrow> int" where
  "indexOf s t = indexOf_from s t 0"

text \<open>\<open>s.charAt(i)\<close>: the one-character string at position \<open>i\<close>, the empty string when
  \<open>i\<close> is out of range.\<close>

definition charAt :: "string \<Rightarrow> int \<Rightarrow> string" where
  "charAt s i = (if 0 \<le> i \<and> i < int (length s) then [s ! nat i] else [])"

text \<open>\<open>s.substring(a, b)\<close>: negative arguments count as 0, arguments beyond the length
  as the length, and the two are swapped when \<open>a > b\<close>.\<close>

definition substring :: "string \<Rightarrow> int \<Rightarrow> int \<Rightarrow> string" where
  "substring s a b =
     (let n = int (length s);
          a' = max 0 (min a n);
          b' = max 0 (min b n);
          lo = min a' b';
          hi = max a' b'
      in take (nat (hi - lo)) (drop (nat lo) s))"

text \<open>\<open>g_BASE32[i]\<close> appended to a string: the character at \<open>i\<close>, and the text
  \<open>undefined\<close> when \<open>i\<close> is not an index of the alphabet.\<close>

definition base32_at :: "int \<Rightarrow> string" where
  "base32_at i = (if 0 \<le> i \<and> i < 32 then [g_BASE32 ! nat i] else ''undefined'')"

text \<open>The 32-bit shifts \<open>>>\<close> and \<open><<\<close>: the left operand is taken as a signed 32-bit
  integer, the shift count modulo 32, and the result of \<open><<\<close> wraps to 32 bits.\<close>

definition to_int32 :: "int \<Rightarrow> int" where
  "to_int32 x = (x + 2 ^ 31) mod 2 ^ 32 - 2 ^ 31"

definition js_shr :: "int \<Rightarrow> int \<Rightarrow> int" where
  "js_shr x n = to_int32 x div 2 ^ nat (n mod 32)"

definition js_shl :: "int \<Rightarrow> int \<Rightarrow> int" where
  "js_shl x n = to_int32 (to_int32 x * 2 ^ nat (n mod 32))"

section \<open>Validation of geohashes and the range of a prefix\<close>

definition validateGeohash :: "string \<Rightarrow> error + unit" where
  "validateGeohash geohash =
     (if geohash = [] then Inl Invalid_geohash
      else if \<exists>letter \<in> set geohash. indexOf g_BASE32 [letter] = - 1 then Inl Invalid_geohash
      else Inr ())"

definition geohashQuery :: "string \<Rightarrow> int \<Rightarrow> error + (string \<times> string)" where
  "geohashQuery geohash bits =
     (case validateGeohash geohash of
        Inl e \<Rightarrow> Inl e
      | Inr _ \<Rightarrow>
          let precision = \<lceil>real_of_int bits / real_of_int g_BITS_PER_CHAR\<rceil> in
          if int (length geohash) < precision then Inr (geohash, geohash @ ''~'')
          else
            let geohash' = substring geohash 0 precision;
                base = substring geohash' 0 (int (length geohash') - 1);
                lastValue = indexOf g_BASE32 (charAt geohash' (int (length geohash') - 1));
                significantBits = bits - int (length base) * g_BITS_PER_CHAR;
                unusedBits = g_BITS_PER_CHAR - significantBits;
                startValue = js_shl (js_shr lastValue unusedBits) unusedBits;
                endValue = startValue + js_shl 1 unusedBits
            in if endValue > 31 then Inr (base @ base32_at startValue, base @ ''~'')
               else Inr (base @ base32_at startValue, base @ base32_at endValue))"


section \<open>Locations and the geohash encoder\<close>

text \<open>A location that has passed \<open>validateLocation\<close> is the pair
  \<open>(latitude, longitude)\<close>.\<close>

type_synonym location = "real \<times> real"

definition to_js :: "location \<Rightarrow> jsvalue" where
  "to_js l = JArr [JNum (fst l), JNum (snd l)]"

definition loc_of :: "jsvalue \<Rightarrow> location" where
  "loc_of v = (case v of JArr [JNum a, JNum b] \<Rightarrow> (a, b) | _ \<Rightarrow> (0, 0))"

definition js_typeof :: "jsvalue \<Rightarrow> string" where
  "js_typeof v =
     (case v of
        JUndefined \<Rightarrow> ''undefined''
      | JNull \<Rightarrow> ''object''
      | JBool _ \<Rightarrow> ''boolean''
      | JNum _ \<Rightarrow> ''number''
      | JNaN \<Rightarrow> ''number''
      | JStr _ \<Rightarrow> ''string''
      | JArr _ \<Rightarrow> ''object''
      | JObj _ \<Rightarrow> ''object'')"

text \<open>\<open>typeof x !== 'number' || isNaN(x)\<close>\<close>

definition not_a_number :: "jsvalue \<Rightarrow> bool" where
  "not_a_number v = (case v of JNum _ \<Rightarrow> False | _ \<Rightarrow> True)"

definition num_of :: "jsvalue \<Rightarrow> real" where
  "num_of v = (case v of JNum x \<Rightarrow> x | _ \<Rightarrow> 0)"

definition validateLocation :: "jsvalue \<Rightarrow> error + unit" where
  "validateLocation location =
     (case location of
        JArr xs \<Rightarrow>
          if length xs \<noteq> 2 then Inl Invalid_location
          else
            let latitude = xs ! 0; longitude = xs ! 1 in
            if not_a_number latitude then Inl Invalid_location
            else if num_of latitude < - 90 \<or> num_of latitude > 90 then Inl Invalid_location
            else if not_a_number longitude then Inl Invalid_location
            else if num_of longitude < - 180 \<or> num_of longitude > 180 then Inl Invalid_location
            else Inr ()
      | _ \<Rightarrow> Inl Invalid_location)"

definition degreesToRadians :: "real \<Rightarrow> real" where
  "degreesToRadians degrees = degrees * pi / 180"

text \<open>The loop of \<open>encodeGeohash\<close>. Its state is the two ranges, \<open>hash\<close>, \<open>hashVal\<close>,
  \<open>bits\<close> and \<open>even\<close> (here \<open>is_even\<close>, and \<open>rng\<close> for \<open>range\<close>); one call is one test of \<open>hash.length < precision\<close>.\<close>

function encodeGeohash_loop ::
  "location \<Rightarrow> int \<Rightarrow> real \<times> real \<Rightarrow> real \<times> real \<Rightarrow> string \<Rightarrow> int \<Rightarrow> nat \<Rightarrow> bool \<Rightarrow> string"
where
  "encodeGeohash_loop location precision latitudeRange longitudeRange hash hashVal bits is_even =
     (if int (length hash) < precision then
        (let val = (if is_even then snd location else fst location);
             rng = (if is_even then longitudeRange else latitudeRange);
             mid = (fst rng + snd rng) / 2;
             hashVal' = (if val > mid then js_shl hashVal 1 + 1 else js_shl hashVal 1 + 0);
             rng' = (if val > mid then (mid, snd rng) else (fst rng, mid));
             latitudeRange' = (if is_even then latitudeRange else rng');
             longitudeRange' = (if is_even then rng' else longitudeRange)
         in if bits < 4
            then encodeGeohash_loop location precision latitudeRange' longitudeRange'
                   hash hashVal' (bits + 1) (\<not> is_even)
            else encodeGeohash_loop location precision latitudeRange' longitudeRange'
                   (hash @ base32_at hashVal') 0 0 (\<not> is_even))
      else hash)"
  by pat_completeness auto
termination
  by (relation "measures [\<lambda>(l, p, la, lo, h, hv, b, e). nat (p - int (length h)),
                          \<lambda>(l, p, la, lo, h, hv, b, e). 4 - b]")
     (auto simp: base32_at_def)

declare encodeGeohash_loop.simps [simp del]

definition encodeGeohash :: "location \<Rightarrow> int \<Rightarrow> error + string" where
  "encodeGeohash location precision =
     (case validateLocation (to_js location) of
        Inl e \<Rightarrow> Inl e
      | Inr _ \<Rightarrow>
          if precision \<le> 0 then Inl Precision_not_positive
          else if precision > 22 then Inl Precision_too_large
          else Inr (encodeGeohash_loop location precision (- 90, 90) (- 180, 180) [] 0 0 True))"

section \<open>Covering a circle with geohash ranges\<close>

definition metersToLongitudeDegrees :: "real \<Rightarrow> real \<Rightarrow> real" where
  "metersToLongitudeDegrees distance latitude =
     (let radians = degreesToRadians latitude;
          num = cos radians * g_EARTH_EQ_RADIUS * pi / 180;
          denom = 1 / sqrt (1 - g_E2 * sin radians * sin radians);
          deltaDeg = num * denom
      in if deltaDeg < g_EPSILON then (if distance > 0 then 360 else 0)
         else min 360 (distance / deltaDeg))"

definition longitudeBitsForResolution :: "real \<Rightarrow> real \<Rightarrow> real" where
  "longitudeBitsForResolution resolution latitude =
     (let degs = metersToLongitudeDegrees resolution latitude
      in if \<bar>degs\<bar> > 1 / 1000000 then max 1 (log 2 (360 / degs)) else 1)"

text \<open>For \<open>resolution = 0\<close> the quotient of the source is \<open>+Infinity\<close>, and so is its
  logarithm: the minimum is the maximal precision.\<close>

definition latitudeBitsForResolution :: "real \<Rightarrow> real" where
  "latitudeBitsForResolution resolution =
     (if resolution = 0 then real_of_int g_MAXIMUM_BITS_PRECISION
      else min (log 2 (g_EARTH_MERI_CIRCUMFERENCE / 2 / resolution))
               (real_of_int g_MAXIMUM_BITS_PRECISION))"

text \<open>The remainder \<open>%\<close> on numbers: the quotient is truncated towards zero.\<close>

definition js_rem :: "real \<Rightarrow> real \<Rightarrow> real" where
  "js_rem x m = x - m * real_of_int (if 0 \<le> x / m then \<lfloor>x / m\<rfloor> else \<lceil>x / m\<rceil>)"

definition wrapLongitude :: "real \<Rightarrow> real" where
  "wrapLongitude longitude =
     (if longitude \<le> 180 \<and> longitude \<ge> - 180 then longitude
      else
        let adjusted = longitude + 180 in
        if adjusted > 0 then js_rem adjusted 360 - 180
        else 180 - js_rem (- adjusted) 360)"

text \<open>\<open>sz\<close> is the parameter \<open>size\<close> of the source.\<close>

definition boundingBoxBits :: "location \<Rightarrow> real \<Rightarrow> int" where
  "boundingBoxBits coordinate sz =
     (let latDeltaDegrees = sz / g_METERS_PER_DEGREE_LATITUDE;
          latitudeNorth = min 90 (fst coordinate + latDeltaDegrees);
          latitudeSouth = max (- 90) (fst coordinate - latDeltaDegrees);
          bitsLat = \<lfloor>latitudeBitsForResolution sz\<rfloor> * 2;
          bitsLongNorth = \<lfloor>longitudeBitsForResolution sz latitudeNorth\<rfloor> * 2 - 1;
          bitsLongSouth = \<lfloor>longitudeBitsForResolution sz latitudeSouth\<rfloor> * 2 - 1
      in min (min (min bitsLat bitsLongNorth) bitsLongSouth) g_MAXIMUM_BITS_PRECISION)"

definition boundingBoxCoordinates :: "location \<Rightarrow> real \<Rightarrow> location list" where
  "boundingBoxCoordinates center radius =
     (let latDegrees = radius / g_METERS_PER_DEGREE_LATITUDE;
          latitudeNorth = min 90 (fst center + latDegrees);
          latitudeSouth = max (- 90) (fst center - latDegrees);
          longDegsNorth = metersToLongitudeDegrees radius latitudeNorth;
          longDegsSouth = metersToLongitudeDegrees radius latitudeSouth;
          longDegs = max longDegsNorth longDegsSouth
      in [(fst center, snd center),
          (fst center, wrapLongitude (snd center - longDegs)),
          (fst center, wrapLongitude (snd center + longDegs)),
          (latitudeNorth, snd center),
          (latitudeNorth, wrapLongitude (snd center - longDegs)),
          (latitudeNorth, wrapLongitude (snd center + longDegs)),
          (latitudeSouth, snd center),
          (latitudeSouth, wrapLongitude (snd center - longDegs)),
          (latitudeSouth, wrapLongitude (snd center + longDegs))])"

text \<open>\<open>coordinates.map(...)\<close> where the function may throw: the first throw ends the
  map.\<close>

fun map_throwing :: "('a \<Rightarrow> error + 'b) \<Rightarrow> 'a list \<Rightarrow> error + 'b list" where
  "map_throwing f [] = Inr []"
| "map_throwing f (x # xs) =
     (case f x of
        Inl e \<Rightarrow> Inl e
      | Inr y \<Rightarrow> (case map_throwing f xs of Inl e \<Rightarrow> Inl e | Inr ys \<Rightarrow> Inr (y # ys)))"

text \<open>The two duplicate filters of the source keep the first occurrence of every
  element: an element stays unless an equal one stands at a smaller index.\<close>

fun keep_first :: "'a list \<Rightarrow> 'a list \<Rightarrow> 'a list" where
  "keep_first seen [] = []"
| "keep_first seen (x # xs) =
     (if x \<in> set seen then keep_first seen xs else x # keep_first (seen @ [x]) xs)"

definition geohashQueries :: "location \<Rightarrow> real \<Rightarrow> error + (string \<times> string) list" where
  "geohashQueries center radius =
     (case validateLocation (to_js center) of
        Inl e \<Rightarrow> Inl e
      | Inr _ \<Rightarrow>
          let queryBits = max 1 (boundingBoxBits center radius);
              geohashPrecision = \<lceil>real_of_int queryBits / real_of_int g_BITS_PER_CHAR\<rceil>;
              coordinates = boundingBoxCoordinates center radius
          in (case map_throwing
                     (\<lambda>coordinate.
                        (case encodeGeohash coordinate geohashPrecision of
                           Inl e \<Rightarrow> Inl e
                         | Inr h \<Rightarrow> geohashQuery h queryBits))
                     coordinates of
                Inl e \<Rightarrow> Inl e
              | Inr queries \<Rightarrow> Inr (keep_first [] queries)))"

section \<open>The haversine distance of \<open>GeoFirestore.distance\<close>\<close>

text \<open>\<open>Math.atan2(y, x)\<close> on real numbers.\<close>

definition atan2 :: "real \<Rightarrow> real \<Rightarrow> real" where
  "atan2 y x =
     (if x > 0 then arctan (y / x)
      else if x < 0 \<and> y \<ge> 0 then arctan (y / x) + pi
      else if x < 0 \<and> y < 0 then arctan (y / x) - pi
      else if y > 0 then pi / 2
      else if y < 0 then - pi / 2
      else 0)"

text \<open>The result is in kilometres: the radius of the earth is given as 6371 km.\<close>

definition distance :: "location \<Rightarrow> location \<Rightarrow> error + real" where
  "distance location1 location2 =
     (case validateLocation (to_js location1) of
        Inl e \<Rightarrow> Inl e
      | Inr _ \<Rightarrow>
          (case validateLocation (to_js location2) of
             Inl e \<Rightarrow> Inl e
           | Inr _ \<Rightarrow>
               let radius = 6371;
                   latDelta = degreesToRadians (fst location2 - fst location1);
                   lonDelta = degreesToRadians (snd location2 - snd location1);
                   a = (sin (latDelta / 2) * sin (latDelta / 2)) +
                       (cos (degreesToRadians (fst location1)) * cos (degreesToRadians (fst location2)) *
                          sin (lonDelta / 2) * sin (lonDelta / 2));
                   c = 2 * atan2 (sqrt a) (sqrt (1 - a))
               in Inr (radius * c)))"


section \<open>Validation of query criteria\<close>

text \<open>Property access \<open>o.name\<close> on an object; a missing property is \<open>undefined\<close>.\<close>

definition get_prop :: "jsvalue \<Rightarrow> string \<Rightarrow> jsvalue" where
  "get_prop v name =
     (case v of
        JObj fs \<Rightarrow> (case map_of fs name of Some x \<Rightarrow> x | None \<Rightarrow> JUndefined)
      | _ \<Rightarrow> JUndefined)"

text \<open>\<open>Object.keys\<close> of an object, and of an array (its indices); the indices only
  need to differ from \<open>center\<close> and \<open>radius\<close>, so they are written in unary.\<close>

definition object_keys :: "jsvalue \<Rightarrow> string list" where
  "object_keys v =
     (case v of
        JObj fs \<Rightarrow> map fst fs
      | JArr xs \<Rightarrow> map (\<lambda>i. replicate (Suc i) CHR ''1'') [0 ..< length xs]
      | _ \<Rightarrow> [])"

text \<open>The truth value of a JavaScript value, as \<open>||\<close> and \<open>&&\<close> take it.\<close>

definition js_truthy :: "jsvalue \<Rightarrow> bool" where
  "js_truthy v =
     (case v of
        JUndefined \<Rightarrow> False
      | JNull \<Rightarrow> False
      | JBool b \<Rightarrow> b
      | JNum x \<Rightarrow> x \<noteq> 0
      | JNaN \<Rightarrow> False
      | JStr t \<Rightarrow> t \<noteq> []
      | JArr _ \<Rightarrow> True
      | JObj _ \<Rightarrow> True)"

definition validateCriteria :: "jsvalue \<Rightarrow> bool \<Rightarrow> error + unit" where
  "validateCriteria newQueryCriteria requireCenterAndRadius =
     (if js_typeof newQueryCriteria \<noteq> ''object'' then Inl Criteria_not_object
      else if newQueryCriteria = JNull then Inl TypeError
      else if js_typeof (get_prop newQueryCriteria ''center'') = ''undefined''
              \<and> js_typeof (get_prop newQueryCriteria ''radius'') = ''undefined''
      then Inl Criteria_nothing_specified
      else if requireCenterAndRadius
              \<and> (js_typeof (get_prop newQueryCriteria ''center'') = ''undefined''
                   \<or> js_typeof (get_prop newQueryCriteria ''radius'') = ''undefined'')
      then Inl Criteria_center_and_radius
      else if list_ex (\<lambda>key. key \<noteq> ''center'' \<and> key \<noteq> ''radius'') (object_keys newQueryCriteria)
      then Inl Criteria_unexpected_attribute
      else
        (case (if js_typeof (get_prop newQueryCriteria ''center'') \<noteq> ''undefined''
               then validateLocation (get_prop newQueryCriteria ''center'') else Inr ()) of
           Inl e \<Rightarrow> Inl e
         | Inr _ \<Rightarrow>
             if js_typeof (get_prop newQueryCriteria ''radius'') \<noteq> ''undefined'' then
               (if not_a_number (get_prop newQueryCriteria ''radius'') then Inl Radius_not_number
                else if num_of (get_prop newQueryCriteria ''radius'') < 0 then Inl Radius_negative
                else Inr ())
             else Inr ()))"

section \<open>The state of a query and of its environment\<close>

text \<open>
  One entry of \<open>_locationsTracked\<close> and one of \<open>_currentGeohashesQueried\<close>. The two
  callbacks of a range are the functions that \<open>onSnapshot\<close> returned: each is known by
  the handle of the store listener that it removes.
\<close>

record locationDict =
  location :: location
  document :: jsvalue
  distanceFromCenter :: real
  isInQuery :: bool
  geohash :: string

record queryState =
  active :: bool
  childCallback :: nat
  valueCallback :: nat

text \<open>
  A callback given to \<open>on\<close> is a function of the caller. It is known by its identity
  \<open>cb_id\<close>; what it does when it is called is either nothing that concerns the query, or
  a call of \<open>cancel()\<close> on the query. Callbacks that re-enter the query in another way are
  not part of the model.
\<close>

datatype action = Returns | Calls_cancel

record callback =
  cb_id :: nat
  cb_action :: action

record callback_lists =
  ready :: "callback list"
  key_entered :: "callback list"
  key_exited :: "callback list"
  key_moved :: "callback list"

text \<open>What the caller observes: every call of one of its callbacks, with the
  arguments (\<open>None\<close> stands for \<open>null\<close>).\<close>

datatype invocation =
    Ready_invoked nat
  | Key_invoked string nat string "location option" "real option" jsvalue

text \<open>
  The environment: the listeners that the store holds for this query (created by
  \<open>onSnapshot\<close>, removed by the function it returned), the timers that are scheduled
  (created by \<open>setInterval\<close> and \<open>setTimeout\<close>), the source of fresh handles, the calls
  of callbacks so far, and the keys for which a \<open>get()\<close> is under way.

  A timer holds the function that was given to it. \<open>setInterval\<close> gets a closure over
  the query; \<open>setTimeout\<close> gets \<open>this._cleanUpCurrentGeohashesQueried\<close>, the method
  taken off the object, which the timer will call without the query as its receiver.
\<close>

datatype listener_kind = Child_listener | Value_listener

record listener =
  listener_id :: nat
  listener_query :: string
  listener_kind :: listener_kind

datatype timer_task = Closure_over_query | Method_without_receiver

record timer =
  timer_id :: nat
  timer_task :: timer_task
  timer_delay :: nat
  timer_repeats :: bool

record env =
  listeners :: "listener list"
  timers :: "timer list"
  next_handle :: nat
  calls :: "invocation list"
  pending_gets :: "string list"

text \<open>
  The fields of \<open>GeoFirestoreQuery\<close>. The two dictionaries are association lists in
  the order of \<open>Object.keys\<close>, which for keys that are not array indices is the order
  of insertion.
\<close>

record state = env +
  callbacks :: callback_lists
  cancelled :: bool
  currentGeohashesQueried :: "(string \<times> queryState) list"
  locationsTracked :: "(string \<times> locationDict) list"
  valueEventFired :: bool
  geohashCleanupScheduled :: bool
  cleanUpCurrentGeohashesQueriedTimeout :: "nat option"
  cleanUpCurrentGeohashesQueriedInterval :: nat
  center :: location
  radius :: real
  outstandingGeohashReadyEvents :: "string list"

type_synonym 'a result = "(error + 'a) \<times> state"

definition dict_keys :: "('k \<times> 'v) list \<Rightarrow> 'k list" where
  "dict_keys d = map fst d"

fun dict_set :: "'k \<Rightarrow> 'v \<Rightarrow> ('k \<times> 'v) list \<Rightarrow> ('k \<times> 'v) list" where
  "dict_set k v [] = [(k, v)]"
| "dict_set k v (p # d) = (if fst p = k then (k, v) # d else p # dict_set k v d)"

definition dict_delete :: "'k \<Rightarrow> ('k \<times> 'v) list \<Rightarrow> ('k \<times> 'v) list" where
  "dict_delete k d = filter (\<lambda>p. fst p \<noteq> k) d"

definition no_callbacks :: callback_lists where
  "no_callbacks = \<lparr>ready = [], key_entered = [], key_exited = [], key_moved = []\<rparr>"

definition get_callbacks :: "callback_lists \<Rightarrow> string \<Rightarrow> callback list" where
  "get_callbacks cbs eventType =
     (if eventType = ''ready'' then ready cbs
      else if eventType = ''key_entered'' then key_entered cbs
      else if eventType = ''key_exited'' then key_exited cbs
      else if eventType = ''key_moved'' then key_moved cbs
      else [])"


section \<open>Private methods of the query\<close>

definition queryToString :: "string \<times> string \<Rightarrow> string" where
  "queryToString query = fst query @ '':'' @ snd query"

text \<open>\<open>str.split(':')\<close>\<close>

fun split_colon :: "string \<Rightarrow> string list" where
  "split_colon [] = [[]]"
| "split_colon (c # cs) =
     (if c = CHR '':'' then [] # split_colon cs
      else (case split_colon cs of [] \<Rightarrow> [[c]] | x # xs \<Rightarrow> (c # x) # xs))"

definition stringToQuery :: "string \<Rightarrow> error + (string \<times> string)" where
  "stringToQuery str =
     (case split_colon str of
        [a, b] \<Rightarrow> Inr (a, b)
      | _ \<Rightarrow> Inl Invalid_internal_state)"

text \<open>Calling the function that \<open>onSnapshot\<close> returned removes the listener; calling
  it again does nothing.\<close>

definition unsubscribe :: "nat \<Rightarrow> state \<Rightarrow> state" where
  "unsubscribe h st = st\<lparr>listeners := filter (\<lambda>l. listener_id l \<noteq> h) (listeners st)\<rparr>"

text \<open>\<open>clearInterval\<close> and \<open>clearTimeout\<close>\<close>

definition clearTimer :: "nat \<Rightarrow> state \<Rightarrow> state" where
  "clearTimer h st = st\<lparr>timers := filter (\<lambda>t. timer_id t \<noteq> h) (timers st)\<rparr>"

definition cancelGeohashQuery :: "string \<times> string \<Rightarrow> queryState \<Rightarrow> state \<Rightarrow> state" where
  "cancelGeohashQuery query qs st = unsubscribe (valueCallback qs) (unsubscribe (childCallback qs) st)"

text \<open>The \<open>forEach\<close> of \<open>cancel\<close> over the keys of \<open>_currentGeohashesQueried\<close>.\<close>

fun cancel_each :: "string list \<Rightarrow> state \<Rightarrow> unit result" where
  "cancel_each [] st = (Inr (), st)"
| "cancel_each (geohashQueryStr # keys) st =
     (case stringToQuery geohashQueryStr of
        Inl e \<Rightarrow> (Inl e, st)
      | Inr query \<Rightarrow>
          (case map_of (currentGeohashesQueried st) geohashQueryStr of
             None \<Rightarrow> (Inl TypeError, st)
           | Some qs \<Rightarrow>
               cancel_each keys
                 ((cancelGeohashQuery query qs st)
                    \<lparr>currentGeohashesQueried :=
                       dict_delete geohashQueryStr (currentGeohashesQueried st)\<rparr>)))"

definition cancel :: "state \<Rightarrow> unit result" where
  "cancel st =
     (let st1 = st\<lparr>cancelled := True, callbacks := no_callbacks\<rparr> in
      case cancel_each (dict_keys (currentGeohashesQueried st1)) st1 of
        (Inl e, st2) \<Rightarrow> (Inl e, st2)
      | (Inr _, st2) \<Rightarrow>
          (Inr (), clearTimer (cleanUpCurrentGeohashesQueriedInterval st2)
                     (st2\<lparr>locationsTracked := []\<rparr>)))"

text \<open>One call of a callback of the caller: the call is recorded, then the callback
  does what it does.\<close>

definition invoke :: "callback \<Rightarrow> invocation \<Rightarrow> state \<Rightarrow> unit result" where
  "invoke cb call st =
     (let st1 = st\<lparr>calls := calls st @ [call]\<rparr> in
      case cb_action cb of
        Returns \<Rightarrow> (Inr (), st1)
      | Calls_cancel \<Rightarrow> cancel st1)"

text \<open>\<open>array.forEach\<close> over a list of callbacks. The array is the one that the
  property held when \<open>forEach\<close> was called: \<open>cancel\<close> stores new, empty arrays in
  \<open>_callbacks\<close> and leaves the array under iteration as it is.\<close>

fun invoke_each :: "callback list \<Rightarrow> (callback \<Rightarrow> invocation) \<Rightarrow> state \<Rightarrow> unit result" where
  "invoke_each [] mk st = (Inr (), st)"
| "invoke_each (cb # cbs) mk st =
     (case invoke cb (mk cb) st of
        (Inl e, st1) \<Rightarrow> (Inl e, st1)
      | (Inr _, st1) \<Rightarrow> invoke_each cbs mk st1)"

definition fireCallbacksForKey ::
  "string \<Rightarrow> string \<Rightarrow> location option \<Rightarrow> real option \<Rightarrow> jsvalue \<Rightarrow> state \<Rightarrow> unit result"
where
  "fireCallbacksForKey eventType key loc dfc doc st =
     invoke_each (get_callbacks (callbacks st) eventType)
       (\<lambda>cb. if loc = None then Key_invoked eventType (cb_id cb) key None None JNull
             else Key_invoked eventType (cb_id cb) key loc dfc doc)
       st"

definition fireReadyEventCallbacks :: "state \<Rightarrow> unit result" where
  "fireReadyEventCallbacks st =
     invoke_each (ready (callbacks st)) (\<lambda>cb. Ready_invoked (cb_id cb)) st"

text \<open>\<open>geohash >= query[0] && geohash <= query[1]\<close> for a geohash that is a string.\<close>

definition in_range :: "string \<Rightarrow> string \<Rightarrow> string \<Rightarrow> bool" where
  "in_range gh start finish = (gh \<ge> start \<and> gh \<le> finish)"

text \<open>
  \<open>_geohashInSomeQuery\<close>. Its argument is given as the test \<open>cmp start end\<close> that the
  loop makes with it: \<open>in_range gh\<close> for a string \<open>gh\<close>. (\<open>_childRemovedCallback\<close> also calls
  it with \<open>null\<close>; what the two comparisons give then depends on the conversion of the
  bounds to numbers, and is a parameter there.)
\<close>

fun geohashInSomeQuery_loop :: "(string \<Rightarrow> string \<Rightarrow> bool) \<Rightarrow> string list \<Rightarrow> error + bool" where
  "geohashInSomeQuery_loop cmp [] = Inr False"
| "geohashInSomeQuery_loop cmp (queryStr # keys) =
     (case stringToQuery queryStr of
        Inl e \<Rightarrow> Inl e
      | Inr query \<Rightarrow>
          if cmp (fst query) (snd query) then Inr True
          else geohashInSomeQuery_loop cmp keys)"

definition geohashInSomeQuery :: "(string \<Rightarrow> string \<Rightarrow> bool) \<Rightarrow> state \<Rightarrow> error + bool" where
  "geohashInSomeQuery cmp st = geohashInSomeQuery_loop cmp (dict_keys (currentGeohashesQueried st))"

text \<open>\<open>_geohashQueryReadyCallback(queryStr)\<close>; \<open>None\<close> is the call without argument.\<close>

definition geohashQueryReadyCallback :: "string option \<Rightarrow> state \<Rightarrow> unit result" where
  "geohashQueryReadyCallback queryStr st =
     (let outstanding =
            (case queryStr of
               None \<Rightarrow> outstandingGeohashReadyEvents st
             | Some q \<Rightarrow> remove1 q (outstandingGeohashReadyEvents st));
          st1 = st\<lparr>outstandingGeohashReadyEvents := outstanding,
                    valueEventFired := (length outstanding = 0)\<rparr>
      in if valueEventFired st1 then fireReadyEventCallbacks st1 else (Inr (), st1))"

text \<open>\<open>_removeLocation(key, currentLocation)\<close>; \<open>currentLocation\<close> is \<open>null\<close> or what
  \<open>decodeGeoFireObject\<close> returned.\<close>

definition removeLocation :: "string \<Rightarrow> jsvalue \<Rightarrow> state \<Rightarrow> unit result" where
  "removeLocation key currentLocation st =
     (let locationDict = map_of (locationsTracked st) key;
          st1 = st\<lparr>locationsTracked := dict_delete key (locationsTracked st)\<rparr>
      in case locationDict of
           None \<Rightarrow> (Inr (), st1)
         | Some ld \<Rightarrow>
             if isInQuery ld then
               (if js_truthy currentLocation then
                  (case validateLocation currentLocation of
                     Inl e \<Rightarrow> (Inl e, st1)
                   | Inr _ \<Rightarrow>
                       (case distance (loc_of currentLocation) (center st1) of
                          Inl e \<Rightarrow> (Inl e, st1)
                        | Inr d \<Rightarrow>
                            fireCallbacksForKey ''key_exited'' key
                              (Some (loc_of currentLocation)) (Some d) JNull st1))
                else fireCallbacksForKey ''key_exited'' key None None JNull st1)
             else (Inr (), st1))"

text \<open>\<open>_updateLocation(key, location, document)\<close>\<close>

definition updateLocation :: "string \<Rightarrow> jsvalue \<Rightarrow> jsvalue \<Rightarrow> state \<Rightarrow> unit result" where
  "updateLocation key loc doc0 st =
     (let doc = (if doc0 = JUndefined then JNull else doc0) in
      case validateLocation loc of
        Inl e \<Rightarrow> (Inl e, st)
      | Inr _ \<Rightarrow>
          (let wasInQuery =
                 (case map_of (locationsTracked st) key of Some ld \<Rightarrow> isInQuery ld | None \<Rightarrow> False);
               oldLocation =
                 (case map_of (locationsTracked st) key of Some ld \<Rightarrow> Some (location ld) | None \<Rightarrow> None)
           in case distance (loc_of loc) (center st) of
                Inl e \<Rightarrow> (Inl e, st)
              | Inr d \<Rightarrow>
                  (let inQuery = (d \<le> radius st) in
                   case encodeGeohash (loc_of loc) g_GEOHASH_PRECISION of
                     Inl e \<Rightarrow> (Inl e, st)
                   | Inr gh \<Rightarrow>
                       (let st1 = st\<lparr>locationsTracked :=
                                        dict_set key
                                          \<lparr>location = loc_of loc, document = doc,
                                           distanceFromCenter = d, isInQuery = inQuery,
                                           geohash = gh\<rparr>
                                          (locationsTracked st)\<rparr>
                        in if inQuery \<and> \<not> wasInQuery then
                             fireCallbacksForKey ''key_entered'' key (Some (loc_of loc)) (Some d) doc st1
                           else if inQuery
                                   \<and> (case oldLocation of
                                          None \<Rightarrow> False
                                        | Some old \<Rightarrow>
                                            fst (loc_of loc) \<noteq> fst old \<or> snd (loc_of loc) \<noteq> snd old) then
                             fireCallbacksForKey ''key_moved'' key (Some (loc_of loc)) (Some d) doc st1
                           else if \<not> inQuery \<and> wasInQuery then
                             fireCallbacksForKey ''key_exited'' key (Some (loc_of loc)) (Some d) doc st1
                           else (Inr (), st1)))))"


section \<open>Notifications of the store\<close>

text \<open>A document snapshot: its id, whether the document exists, and its data.\<close>

record snapshot =
  snap_id :: string
  snap_exists :: bool
  snap_data :: jsvalue

definition geoFirestoreGetKey :: "snapshot \<Rightarrow> string" where
  "geoFirestoreGetKey snap = snap_id snap"

text \<open>\<open>'name' in o\<close>: a \<open>TypeError\<close> when \<open>o\<close> is not an object.\<close>

definition has_prop :: "string \<Rightarrow> jsvalue \<Rightarrow> error + bool" where
  "has_prop name v =
     (case v of
        JObj fs \<Rightarrow> Inr (name \<in> set (map fst fs))
      | JArr xs \<Rightarrow> Inr False
      | _ \<Rightarrow> Inl TypeError)"

definition is_array_of_two :: "jsvalue \<Rightarrow> bool" where
  "is_array_of_two v = (case v of JArr xs \<Rightarrow> length xs = 2 | _ \<Rightarrow> False)"

definition decodeGeoFireObject :: "jsvalue \<Rightarrow> error + jsvalue" where
  "decodeGeoFireObject geoFireObj =
     (if \<not> js_truthy geoFireObj then Inl Unexpected_location_object
      else
        (case has_prop ''l'' geoFireObj of
           Inl e \<Rightarrow> Inl e
         | Inr present \<Rightarrow>
             if present \<and> is_array_of_two (get_prop geoFireObj ''l'')
             then Inr (get_prop geoFireObj ''l'')
             else Inl Unexpected_location_object))"

definition decodeGeoFireDocumentObject :: "jsvalue \<Rightarrow> error + jsvalue" where
  "decodeGeoFireDocumentObject geoFireObj =
     (if \<not> js_truthy geoFireObj then Inr JUndefined
      else
        (case has_prop ''d'' geoFireObj of
           Inl e \<Rightarrow> Inl e
         | Inr present \<Rightarrow> if present then Inr (get_prop geoFireObj ''d'') else Inr JUndefined))"

text \<open>\<open>_childAddedCallback\<close> and \<open>_childChangedCallback\<close> have the same body.\<close>

definition childAddedCallback :: "snapshot \<Rightarrow> state \<Rightarrow> unit result" where
  "childAddedCallback locationDataSnapshot st =
     (let data = snap_data locationDataSnapshot in
      case decodeGeoFireObject data of
        Inl e \<Rightarrow> (Inl e, st)
      | Inr loc \<Rightarrow>
          (case decodeGeoFireDocumentObject data of
             Inl e \<Rightarrow> (Inl e, st)
           | Inr doc \<Rightarrow> updateLocation (geoFirestoreGetKey locationDataSnapshot) loc doc st))"

definition childChangedCallback :: "snapshot \<Rightarrow> state \<Rightarrow> unit result" where
  "childChangedCallback locationDataSnapshot st =
     (let data = snap_data locationDataSnapshot in
      case decodeGeoFireObject data of
        Inl e \<Rightarrow> (Inl e, st)
      | Inr loc \<Rightarrow>
          (case decodeGeoFireDocumentObject data of
             Inl e \<Rightarrow> (Inl e, st)
           | Inr doc \<Rightarrow> updateLocation (geoFirestoreGetKey locationDataSnapshot) loc doc st))"

text \<open>
  \<open>_childRemovedCallback\<close> in two steps: the call itself, which starts a \<open>get()\<close> of the
  document when the key is tracked, and the function given to \<open>then\<close>, which runs when
  the snapshot \<open>snap\<close> of the document has arrived. \<open>null_in_range start end\<close> stands for
  \<open>null >= start && null <= end\<close>.
\<close>

definition childRemovedCallback :: "snapshot \<Rightarrow> state \<Rightarrow> unit result" where
  "childRemovedCallback locationDataSnapshot st =
     (let key = geoFirestoreGetKey locationDataSnapshot in
      if key \<in> set (dict_keys (locationsTracked st))
      then (Inr (), st\<lparr>pending_gets := pending_gets st @ [key]\<rparr>)
      else (Inr (), st))"

definition childRemoved_then ::
  "(string \<Rightarrow> string \<Rightarrow> bool) \<Rightarrow> string \<Rightarrow> snapshot \<Rightarrow> state \<Rightarrow> unit result"
where
  "childRemoved_then null_in_range key snap st =
     (if \<not> snap_exists snap then
        (case geohashInSomeQuery null_in_range st of
           Inl e \<Rightarrow> (Inl e, st)
         | Inr covered \<Rightarrow> if \<not> covered then removeLocation key JNull st else (Inr (), st))
      else
        (case decodeGeoFireObject (snap_data snap) of
           Inl e \<Rightarrow> (Inl e, st)
         | Inr loc \<Rightarrow>
             (case validateLocation loc of
                Inl e \<Rightarrow> (Inl e, st)
              | Inr _ \<Rightarrow>
                  (case encodeGeohash (loc_of loc) g_GEOHASH_PRECISION of
                     Inl e \<Rightarrow> (Inl e, st)
                   | Inr gh \<Rightarrow>
                       (case geohashInSomeQuery (in_range gh) st of
                          Inl e \<Rightarrow> (Inl e, st)
                        | Inr covered \<Rightarrow>
                            if \<not> covered then removeLocation key loc st else (Inr (), st))))))"

text \<open>The listener of the first \<open>onSnapshot\<close> of a range: one call for every change
  of the snapshot.\<close>

datatype change_type = Added | Modified | Removed

fun child_snapshot :: "(change_type \<times> snapshot) list \<Rightarrow> state \<Rightarrow> unit result" where
  "child_snapshot [] st = (Inr (), st)"
| "child_snapshot (change # changes) st =
     (case (case fst change of
              Added \<Rightarrow> childAddedCallback (snd change) st
            | Modified \<Rightarrow> childChangedCallback (snd change) st
            | Removed \<Rightarrow> childRemovedCallback (snd change) st) of
        (Inl e, st1) \<Rightarrow> (Inl e, st1)
      | (Inr _, st1) \<Rightarrow> child_snapshot changes st1)"

text \<open>The listener of the second \<open>onSnapshot\<close> of the range \<open>toQueryStr\<close>, whose own
  handle is \<open>h\<close>: \<open>valueCallback(); _this._geohashQueryReadyCallback(toQueryStr)\<close>.\<close>

definition value_snapshot :: "nat \<Rightarrow> string \<Rightarrow> state \<Rightarrow> unit result" where
  "value_snapshot h toQueryStr st = geohashQueryReadyCallback (Some toQueryStr) (unsubscribe h st)"

section \<open>Cleaning up and listening\<close>

text \<open>The receiver \<open>this\<close> of a call of \<open>_cleanUpCurrentGeohashesQueried\<close>: the query,
  or another object (the one a timer supplies), which has none of the fields.\<close>

datatype receiver = The_query | Another_object

fun cleanUp_queries :: "string list \<Rightarrow> state \<Rightarrow> unit result" where
  "cleanUp_queries [] st = (Inr (), st)"
| "cleanUp_queries (geohashQueryStr # keys) st =
     (case map_of (currentGeohashesQueried st) geohashQueryStr of
        None \<Rightarrow> (Inl TypeError, st)
      | Some qs \<Rightarrow>
          if active qs = False then
            (case stringToQuery geohashQueryStr of
               Inl e \<Rightarrow> (Inl e, st)
             | Inr query \<Rightarrow>
                 cleanUp_queries keys
                   ((cancelGeohashQuery query qs st)
                      \<lparr>currentGeohashesQueried :=
                         dict_delete geohashQueryStr (currentGeohashesQueried st)\<rparr>))
          else cleanUp_queries keys st)"

fun cleanUp_locations :: "string list \<Rightarrow> state \<Rightarrow> unit result" where
  "cleanUp_locations [] st = (Inr (), st)"
| "cleanUp_locations (key # keys) st =
     (case map_of (locationsTracked st) key of
        None \<Rightarrow> (Inl TypeError, st)
      | Some ld \<Rightarrow>
          (case geohashInSomeQuery (in_range (geohash ld)) st of
             Inl e \<Rightarrow> (Inl e, st)
           | Inr covered \<Rightarrow>
               if \<not> covered then
                 (if isInQuery ld then (Inl Internal_state_error, st)
                  else cleanUp_locations keys
                         (st\<lparr>locationsTracked := dict_delete key (locationsTracked st)\<rparr>))
               else cleanUp_locations keys st))"

definition cleanUpCurrentGeohashesQueried :: "receiver \<Rightarrow> state \<Rightarrow> unit result" where
  "cleanUpCurrentGeohashesQueried this st =
     (case this of
        Another_object \<Rightarrow> (Inl TypeError, st)
      | The_query \<Rightarrow>
          (case cleanUp_queries (dict_keys (currentGeohashesQueried st)) st of
             (Inl e, st1) \<Rightarrow> (Inl e, st1)
           | (Inr _, st1) \<Rightarrow>
               (case cleanUp_locations (dict_keys (locationsTracked st1)) st1 of
                  (Inl e, st2) \<Rightarrow> (Inl e, st2)
                | (Inr _, st2) \<Rightarrow>
                    (let st3 = st2\<lparr>geohashCleanupScheduled := False\<rparr> in
                     case cleanUpCurrentGeohashesQueriedTimeout st3 of
                       None \<Rightarrow> (Inr (), st3)
                     | Some h \<Rightarrow>
                         (Inr (), (clearTimer h st3)
                                    \<lparr>cleanUpCurrentGeohashesQueriedTimeout := None\<rparr>)))))"

text \<open>The first \<open>forEach\<close> of \<open>_listenForNewGeohashes\<close>: every range that is queried
  already is marked active and taken out of \<open>geohashesToQuery\<close> when it is wanted, and
  marked inactive when it is not.\<close>

fun mark_each ::
  "string list \<Rightarrow> string list \<times> (string \<times> queryState) list
     \<Rightarrow> string list \<times> (string \<times> queryState) list"
where
  "mark_each [] acc = acc"
| "mark_each (geohashQueryStr # keys) (geohashesToQuery, current) =
     (case map_of current geohashQueryStr of
        None \<Rightarrow> mark_each keys (geohashesToQuery, current)
      | Some qs \<Rightarrow>
          if geohashQueryStr \<notin> set geohashesToQuery
          then mark_each keys
                 (geohashesToQuery, dict_set geohashQueryStr (qs\<lparr>active := False\<rparr>) current)
          else mark_each keys
                 (remove1 geohashQueryStr geohashesToQuery,
                  dict_set geohashQueryStr (qs\<lparr>active := True\<rparr>) current))"

text \<open>\<open>onSnapshot\<close>: the store holds a new listener, and the function that removes it
  is known by the fresh handle.\<close>

definition onSnapshot :: "string \<Rightarrow> listener_kind \<Rightarrow> state \<Rightarrow> nat \<times> state" where
  "onSnapshot toQueryStr kind st =
     (next_handle st,
      st\<lparr>listeners := listeners st @
             [\<lparr>listener_id = next_handle st, listener_query = toQueryStr, listener_kind = kind\<rparr>],
          next_handle := Suc (next_handle st)\<rparr>)"

text \<open>The second \<open>forEach\<close>: two listeners for every range that is new.\<close>

fun subscribe_each :: "string list \<Rightarrow> state \<Rightarrow> unit result" where
  "subscribe_each [] st = (Inr (), st)"
| "subscribe_each (toQueryStr # rest) st =
     (case stringToQuery toQueryStr of
        Inl e \<Rightarrow> (Inl e, st)
      | Inr query \<Rightarrow>
          (let (c, st1) = onSnapshot toQueryStr Child_listener st;
               (v, st2) = onSnapshot toQueryStr Value_listener st1
           in subscribe_each rest
                (st2\<lparr>currentGeohashesQueried :=
                        dict_set toQueryStr \<lparr>active = True, childCallback = c, valueCallback = v\<rparr>
                          (currentGeohashesQueried st2)\<rparr>)))"

text \<open>\<open>setTimeout(this._cleanUpCurrentGeohashesQueried, 10)\<close> and the
  \<open>setInterval\<close> of the constructor.\<close>

definition setTimeout_cleanUp :: "state \<Rightarrow> nat \<times> state" where
  "setTimeout_cleanUp st =
     (next_handle st,
      st\<lparr>timers := timers st @
             [\<lparr>timer_id = next_handle st, timer_task = Method_without_receiver,
               timer_delay = 10, timer_repeats = False\<rparr>],
          next_handle := Suc (next_handle st)\<rparr>)"

definition setInterval_cleanUp :: "state \<Rightarrow> nat \<times> state" where
  "setInterval_cleanUp st =
     (next_handle st,
      st\<lparr>timers := timers st @
             [\<lparr>timer_id = next_handle st, timer_task = Closure_over_query,
               timer_delay = 10000, timer_repeats = True\<rparr>],
          next_handle := Suc (next_handle st)\<rparr>)"

text \<open>\<open>_listenForNewGeohashes\<close> from its second statement on; \<open>geohashesToQuery0\<close> is
  the list of strings that the first statement has computed.\<close>

definition listenForNewGeohashes_from :: "string list \<Rightarrow> state \<Rightarrow> unit result" where
  "listenForNewGeohashes_from geohashesToQuery0 st =
     (let geohashesToQuery1 = keep_first [] geohashesToQuery0;
          (geohashesToQuery, current) =
             mark_each (dict_keys (currentGeohashesQueried st))
               (geohashesToQuery1, currentGeohashesQueried st);
          st1 = st\<lparr>currentGeohashesQueried := current\<rparr>;
          st2 = (if geohashCleanupScheduled st1 = False
                    \<and> length (dict_keys (currentGeohashesQueried st1)) > 25
                 then (let (h, st') = setTimeout_cleanUp (st1\<lparr>geohashCleanupScheduled := True\<rparr>)
                       in st'\<lparr>cleanUpCurrentGeohashesQueriedTimeout := Some h\<rparr>)
                 else st1);
          st3 = st2\<lparr>outstandingGeohashReadyEvents := geohashesToQuery\<rparr>
      in case subscribe_each geohashesToQuery st3 of
           (Inl e, st4) \<Rightarrow> (Inl e, st4)
         | (Inr _, st4) \<Rightarrow>
             if length geohashesToQuery = 0 then geohashQueryReadyCallback None st4
             else (Inr (), st4))"

definition listenForNewGeohashes :: "state \<Rightarrow> unit result" where
  "listenForNewGeohashes st =
     (case geohashQueries (center st) (radius st * 1000) of
        Inl e \<Rightarrow> (Inl e, st)
      | Inr queries \<Rightarrow> listenForNewGeohashes_from (map queryToString queries) st)"

section \<open>Public methods of the query\<close>

text \<open>The loop of \<open>updateCriteria\<close> over the keys of \<open>_locationsTracked\<close>.\<close>

fun updateCriteria_loop :: "string list \<Rightarrow> state \<Rightarrow> unit result" where
  "updateCriteria_loop [] st = (Inr (), st)"
| "updateCriteria_loop (key # keys) st =
     (if cancelled st = True then (Inr (), st)
      else
        (case map_of (locationsTracked st) key of
           None \<Rightarrow> (Inl TypeError, st)
         | Some ld \<Rightarrow>
             (let wasAlreadyInQuery = isInQuery ld in
              case distance (location ld) (center st) of
                Inl e \<Rightarrow> (Inl e, st)
              | Inr d \<Rightarrow>
                  (let ld' = ld\<lparr>distanceFromCenter := d, isInQuery := (d \<le> radius st)\<rparr>;
                       st1 = st\<lparr>locationsTracked := dict_set key ld' (locationsTracked st)\<rparr>
                   in case (if wasAlreadyInQuery \<and> \<not> isInQuery ld' then
                              fireCallbacksForKey ''key_exited'' key (Some (location ld'))
                                (Some (distanceFromCenter ld')) (document ld') st1
                            else if \<not> wasAlreadyInQuery \<and> isInQuery ld' then
                              fireCallbacksForKey ''key_entered'' key (Some (location ld'))
                                (Some (distanceFromCenter ld')) (document ld') st1
                            else (Inr (), st1)) of
                        (Inl e, st2) \<Rightarrow> (Inl e, st2)
                      | (Inr _, st2) \<Rightarrow> updateCriteria_loop keys st2))))"

definition updateCriteria :: "jsvalue \<Rightarrow> state \<Rightarrow> unit result" where
  "updateCriteria newQueryCriteria st =
     (case validateCriteria newQueryCriteria False of
        Inl e \<Rightarrow> (Inl e, st)
      | Inr _ \<Rightarrow>
          (let st1 = st\<lparr>center := (if js_truthy (get_prop newQueryCriteria ''center'')
                                    then loc_of (get_prop newQueryCriteria ''center'')
                                    else center st),
                        radius := (if js_truthy (get_prop newQueryCriteria ''radius'')
                                    then num_of (get_prop newQueryCriteria ''radius'')
                                    else radius st)\<rparr>
           in case updateCriteria_loop (dict_keys (locationsTracked st1)) st1 of
                (Inl e, st2) \<Rightarrow> (Inl e, st2)
              | (Inr _, st2) \<Rightarrow> listenForNewGeohashes (st2\<lparr>valueEventFired := False\<rparr>)))"

text \<open>
  The constructor. Before \<open>_center\<close> and \<open>_radius\<close> are assigned they are \<open>undefined\<close>;
  the record holds \<open>(0, 0)\<close> and \<open>0\<close> there, and \<open>0\<close> for the handle of the interval
  before \<open>setInterval\<close> has returned it. Nothing reads these fields before they are
  assigned.
\<close>

definition initial_state :: "env \<Rightarrow> state" where
  "initial_state e =
     \<lparr>listeners = listeners e, timers = timers e, next_handle = next_handle e,
      calls = calls e, pending_gets = pending_gets e,
      callbacks = no_callbacks,
      cancelled = False,
      currentGeohashesQueried = [],
      locationsTracked = [],
      valueEventFired = False,
      geohashCleanupScheduled = False,
      cleanUpCurrentGeohashesQueriedTimeout = None,
      cleanUpCurrentGeohashesQueriedInterval = 0,
      center = (0, 0),
      radius = 0,
      outstandingGeohashReadyEvents = []\<rparr>"

definition is_plain_object :: "jsvalue \<Rightarrow> bool" where
  "is_plain_object v = (case v of JObj _ \<Rightarrow> True | _ \<Rightarrow> False)"

definition new_GeoFirestoreQuery :: "jsvalue \<Rightarrow> jsvalue \<Rightarrow> env \<Rightarrow> unit result" where
  "new_GeoFirestoreQuery collectionRef queryCriteria e =
     (let st0 = initial_state e in
      if \<not> is_plain_object collectionRef then (Inl FirebaseRef_not_object, st0)
      else
        (let (h, st') = setInterval_cleanUp st0;
             st1 = st'\<lparr>cleanUpCurrentGeohashesQueriedInterval := h\<rparr>
         in case validateCriteria queryCriteria True of
              Inl er \<Rightarrow> (Inl er, st1)
            | Inr _ \<Rightarrow>
                listenForNewGeohashes
                  (st1\<lparr>center := loc_of (get_prop queryCriteria ''center''),
                       radius := num_of (get_prop queryCriteria ''radius'')\<rparr>)))"








section \<open>Timers\<close>

text \<open>
  The timer with handle \<open>h\<close> fires. The function of the interval is
  \<open>function () { if (_this._geohashCleanupScheduled === false) { _this._cleanUpCurrentGeohashesQueried(); } }\<close>;
  the function of the timeout is the method itself, called by the timer, so that
  its \<open>this\<close> is not the query. A timer that does not repeat is gone once it has fired.
\<close>

definition timer_fires :: "nat \<Rightarrow> state \<Rightarrow> unit result" where
  "timer_fires h st =
     (case find (\<lambda>t. timer_id t = h) (timers st) of
        None \<Rightarrow> (Inr (), st)
      | Some t \<Rightarrow>
          (let st1 = (if timer_repeats t then st else clearTimer h st) in
           case timer_task t of
             Closure_over_query \<Rightarrow>
               if geohashCleanupScheduled st1 = False
               then cleanUpCurrentGeohashesQueried The_query st1
               else (Inr (), st1)
           | Method_without_receiver \<Rightarrow> cleanUpCurrentGeohashesQueried Another_object st1))"

section \<open>What happens to a query after it was created\<close>

text \<open>
  The store and the timers call into the query: a snapshot with document changes
  arrives at the first listener of a range, the \<open>get()\<close> started by
  \<open>_childRemovedCallback\<close> completes, a snapshot arrives at the second listener of a
  range, a timer fires; and the caller updates the criteria. A function that throws
  ends there; what is delivered later still runs, on the state that was left.
\<close>

datatype stimulus =
    Child_snapshot "(change_type \<times> snapshot) list"
  | Get_completed "string \<Rightarrow> string \<Rightarrow> bool" string snapshot
  | Value_snapshot nat string
  | Timer_fires nat
  | Update_criteria jsvalue

fun react :: "stimulus \<Rightarrow> state \<Rightarrow> unit result" where
  "react (Child_snapshot changes) st = child_snapshot changes st"
| "react (Get_completed null_in_range key snap) st = childRemoved_then null_in_range key snap st"
| "react (Value_snapshot h toQueryStr) st = value_snapshot h toQueryStr st"
| "react (Timer_fires h) st = timer_fires h st"
| "react (Update_criteria newQueryCriteria) st = updateCriteria newQueryCriteria st"

fun run :: "stimulus list \<Rightarrow> state \<Rightarrow> state" where
  "run [] st = st"
| "run (s # ss) st = run ss (snd (react s st))"

section \<open>Notions used to state the properties\<close>


text \<open>A geohash is covered by a dictionary of ranges when it lies in the range that
  one of the keys denotes.\<close>

definition covered_by :: "(string \<times> queryState) list \<Rightarrow> string \<Rightarrow> bool" where
  "covered_by ranges gh =
     list_ex (\<lambda>queryStr. case stringToQuery queryStr of
                            Inl e \<Rightarrow> False
                          | Inr query \<Rightarrow> in_range gh (fst query) (snd query))
       (dict_keys ranges)"

text \<open>The ranges that the first loop of the cleanup leaves, the tracked entries that
  none of them covers, and among these the ones that are marked as in the query.\<close>

definition remaining_ranges :: "state \<Rightarrow> (string \<times> queryState) list" where
  "remaining_ranges st = filter (\<lambda>p. active (snd p)) (currentGeohashesQueried st)"

definition uncovered :: "state \<Rightarrow> string \<times> locationDict \<Rightarrow> bool" where
  "uncovered st p = (\<not> covered_by (remaining_ranges st) (geohash (snd p)))"

definition fatal :: "state \<Rightarrow> string \<times> locationDict \<Rightarrow> bool" where
  "fatal st p = (uncovered st p \<and> isInQuery (snd p))"

text \<open>What the association lists owe to the objects they stand for: a key occurs
  once, and the keys of \<open>_currentGeohashesQueried\<close> are strings \<open>start:end\<close>.\<close>

definition well_formed :: "state \<Rightarrow> bool" where
  "well_formed st \<longleftrightarrow>
     distinct (dict_keys (currentGeohashesQueried st))
     \<and> distinct (dict_keys (locationsTracked st))
     \<and> list_all (\<lambda>queryStr. case stringToQuery queryStr of Inl e \<Rightarrow> False | Inr query \<Rightarrow> True)
          (dict_keys (currentGeohashesQueried st))"

section \<open>Example queries\<close>

text \<open>Three callbacks of a caller; the third one cancels the query when it is
  called.\<close>

definition cbA :: callback where
  "cbA = \<lparr>cb_id = 1, cb_action = Returns\<rparr>"

definition cbB :: callback where
  "cbB = \<lparr>cb_id = 2, cb_action = Returns\<rparr>"

definition cbC :: callback where
  "cbC = \<lparr>cb_id = 3, cb_action = Calls_cancel\<rparr>"

definition example_env :: env where
  "example_env = \<lparr>listeners = [], timers = [], next_handle = 0, calls = [], pending_gets = []\<rparr>"

definition interval_timer :: "nat \<Rightarrow> timer" where
  "interval_timer h =
     \<lparr>timer_id = h, timer_task = Closure_over_query, timer_delay = 10000, timer_repeats = True\<rparr>"

definition timeout_timer :: "nat \<Rightarrow> timer" where
  "timeout_timer h =
     \<lparr>timer_id = h, timer_task = Method_without_receiver, timer_delay = 10, timer_repeats = False\<rparr>"

text \<open>A query with center \<open>[0, 0]\<close> and radius 1 whose interval has the handle 0; the
  ranges it listens to are added below.\<close>

definition example_query :: state where
  "example_query = (initial_state example_env)
     \<lparr>timers := [interval_timer 0], next_handle := 1,
      cleanUpCurrentGeohashesQueriedInterval := 0, center := (0, 0), radius := 1\<rparr>"

text \<open>The query listening to \<open>n\<close> distinct ranges \<open>c:c~\<close>, one for each of the first
  \<open>n\<close> characters \<open>c\<close> of the alphabet. All of them have delivered their first
  snapshot, so the second listener of each has removed itself.\<close>

definition range_key :: "nat \<Rightarrow> string" where
  "range_key i = [g_BASE32 ! i] @ '':'' @ [g_BASE32 ! i] @ ''~''"

definition example_ranges :: "nat \<Rightarrow> (string \<times> queryState) list" where
  "example_ranges n =
     map (\<lambda>i. (range_key i, \<lparr>active = True, childCallback = 2 * i + 1, valueCallback = 2 * i + 2\<rparr>))
       [0 ..< n]"

definition example_listeners :: "nat \<Rightarrow> listener list" where
  "example_listeners n =
     map (\<lambda>i. \<lparr>listener_id = 2 * i + 1, listener_query = range_key i, listener_kind = Child_listener\<rparr>)
       [0 ..< n]"

definition query_with_ranges :: "nat \<Rightarrow> state" where
  "query_with_ranges n = example_query
     \<lparr>listeners := example_listeners n, next_handle := 2 * n + 1,
      currentGeohashesQueried := example_ranges n, valueEventFired := True\<rparr>"

text \<open>The query with 30 ranges after \<open>_listenForNewGeohashes\<close> has found that only
  the first five of them are wanted.\<close>

definition shrunk_query :: state where
  "shrunk_query = snd (listenForNewGeohashes_from (map range_key [0 ..< 5]) (query_with_ranges 30))"

text \<open>Two tracked keys at the center that are marked as outside, as they are in
  \<open>updateCriteria\<close> once the new center is stored; two \<open>key_entered\<close> callbacks, the
  first of which cancels the query.\<close>

definition far_away :: locationDict where
  "far_away = \<lparr>location = (0, 0), document = JNull, distanceFromCenter = 2,
               isInQuery = False, geohash = ''7zzzzzzzzz''\<rparr>"

definition two_listeners_query :: state where
  "two_listeners_query = example_query
     \<lparr>callbacks := no_callbacks\<lparr>key_entered := [cbC, cbB]\<rparr>,
      locationsTracked := [(''k1'', far_away), (''k2'', far_away)]\<rparr>"

text \<open>Registries for the cleanup: an entry with geohash \<open>gh\<close> and in-query flag
  \<open>inq\<close>.\<close>

definition tracked :: "string \<Rightarrow> bool \<Rightarrow> locationDict" where
  "tracked gh inq = \<lparr>location = (0, 0), document = JNull, distanceFromCenter = 0,
                     isInQuery = inq, geohash = gh\<rparr>"

definition desynchronised_query :: state where
  "desynchronised_query = example_query
     \<lparr>locationsTracked :=
        [(''k1'', tracked ''7zzzzzzzzz'' True), (''k2'', tracked ''s000000000'' False)]\<rparr>"

definition swept_query :: state where
  "swept_query = example_query
     \<lparr>currentGeohashesQueried :=
        [(''7zzzzw:7zzzz~'', \<lparr>active = True, childCallback = 1, valueCallback = 2\<rparr>),
         (''ebpbp8:ebpbpd'', \<lparr>active = False, childCallback = 3, valueCallback = 4\<rparr>)],
      locationsTracked :=
        [(''a'', tracked ''7zzzzzzzzz'' True),
         (''b'', tracked ''ebpbpc0000'' False),
         (''c'', tracked ''7zzzzx0000'' False),
         (''d'', tracked ''s000000000'' False)]\<rparr>"

text \<open>The scenario of a key that is observed near the center and then further
  away. A stored record as the decoders expect it, with its geohash at the default
  precision; a fourth callback that only returns; one callback for each of the
  three key events.\<close>

definition cbD :: callback where
  "cbD = \<lparr>cb_id = 4, cb_action = Returns\<rparr>"

definition stored_record :: "string \<Rightarrow> location \<Rightarrow> jsvalue" where
  "stored_record gh l =
     JObj [(''.priority'', JStr gh), (''g'', JStr gh), (''l'', to_js l), (''d'', JStr ''doc'')]"

definition A_near :: snapshot where
  "A_near = \<lparr>snap_id = ''A'', snap_exists = True,
             snap_data = stored_record ''kpbpbpgxux'' (0, 1 / 200)\<rparr>"

definition A_far :: snapshot where
  "A_far = \<lparr>snap_id = ''A'', snap_exists = True,
            snap_data = stored_record ''s00007wsd0'' (1 / 50, 1 / 50)\<rparr>"

definition one_callback_each :: callback_lists where
  "one_callback_each = \<lparr>ready = [], key_entered = [cbA], key_exited = [cbB], key_moved = [cbD]\<rparr>"

text \<open>The event name under which an invocation was made.\<close>

definition invocation_event :: "invocation \<Rightarrow> string" where
  "invocation_event i = (case i of Ready_invoked c \<Rightarrow> ''ready'' | Key_invoked ev c k l d doc \<Rightarrow> ev)"

text \<open>A query at \<open>(0, 0)\<close> with radius 1, that is one kilometre, listening to the
  four ranges that \<open>geohashQueries\<close> gives for 1000 metres there; and the same query
  with the number 1000 as its radius.\<close>

definition kilometre_query :: state where
  "kilometre_query = example_query
     \<lparr>listeners :=
        [\<lparr>listener_id = 1, listener_query = ''7zzzzw:7zzzz~'', listener_kind = Child_listener\<rparr>,
         \<lparr>listener_id = 3, listener_query = ''kpbpbn:kpbpbs'', listener_kind = Child_listener\<rparr>,
         \<lparr>listener_id = 5, listener_query = ''ebpbp8:ebpbpd'', listener_kind = Child_listener\<rparr>,
         \<lparr>listener_id = 7, listener_query = ''s00000:s00004'', listener_kind = Child_listener\<rparr>],
      next_handle := 9,
      callbacks := one_callback_each,
      currentGeohashesQueried :=
        [(''7zzzzw:7zzzz~'', \<lparr>active = True, childCallback = 1, valueCallback = 2\<rparr>),
         (''kpbpbn:kpbpbs'', \<lparr>active = True, childCallback = 3, valueCallback = 4\<rparr>),
         (''ebpbp8:ebpbpd'', \<lparr>active = True, childCallback = 5, valueCallback = 6\<rparr>),
         (''s00000:s00004'', \<lparr>active = True, childCallback = 7, valueCallback = 8\<rparr>)],
      valueEventFired := True\<rparr>"

definition thousand_query :: state where
  "thousand_query = example_query\<lparr>radius := 1000, callbacks := one_callback_each\<rparr>"

text \<open>A center on the equator just west of the meridian of Greenwich, and a point
  on the equator just east of it.\<close>

definition west_center :: location where
  "west_center = (0, - 899 / 100000)"

definition east_point :: location where
  "east_point = (0, 1 / 1000000)"
section \<open>Properties of the geohash alphabet and of \<open>geohashQuery\<close>\<close>

















section \<open>Callback registrations\<close>









section \<open>A query without callbacks calls nothing\<close>

lemma quiet_fireCallbacksForKey:
  "callbacks st = no_callbacks \<Longrightarrow> fireCallbacksForKey ev k l d doc st = (Inr (), st)"
  by (simp add: fireCallbacksForKey_def get_callbacks_def no_callbacks_def)

lemma quiet_fireReadyEventCallbacks:
  "callbacks st = no_callbacks \<Longrightarrow> fireReadyEventCallbacks st = (Inr (), st)"
  by (simp add: fireReadyEventCallbacks_def no_callbacks_def)

lemma quiet_geohashQueryReadyCallback:
  assumes "callbacks st = no_callbacks"
  shows "callbacks (snd (geohashQueryReadyCallback q st)) = no_callbacks
       \<and> calls (snd (geohashQueryReadyCallback q st)) = calls st"
  using assms
  by (simp add: geohashQueryReadyCallback_def Let_def quiet_fireReadyEventCallbacks)

lemma quiet_removeLocation:
  assumes "callbacks st = no_callbacks"
  shows "callbacks (snd (removeLocation k l st)) = no_callbacks
       \<and> calls (snd (removeLocation k l st)) = calls st"
  using assms
  by (simp add: removeLocation_def Let_def quiet_fireCallbacksForKey
      split: option.split sum.split)

lemma quiet_updateLocation:
  assumes "callbacks st = no_callbacks"
  shows "callbacks (snd (updateLocation k l doc st)) = no_callbacks
       \<and> calls (snd (updateLocation k l doc st)) = calls st"
  using assms
  by (simp add: updateLocation_def Let_def quiet_fireCallbacksForKey
      split: option.split sum.split)

lemma quiet_childAddedCallback:
  assumes "callbacks st = no_callbacks"
  shows "callbacks (snd (childAddedCallback sn st)) = no_callbacks
       \<and> calls (snd (childAddedCallback sn st)) = calls st"
  using assms quiet_updateLocation
  by (simp add: childAddedCallback_def Let_def split: sum.split)

lemma quiet_childChangedCallback:
  assumes "callbacks st = no_callbacks"
  shows "callbacks (snd (childChangedCallback sn st)) = no_callbacks
       \<and> calls (snd (childChangedCallback sn st)) = calls st"
  using assms quiet_updateLocation
  by (simp add: childChangedCallback_def Let_def split: sum.split)

lemma quiet_childRemovedCallback:
  assumes "callbacks st = no_callbacks"
  shows "callbacks (snd (childRemovedCallback sn st)) = no_callbacks
       \<and> calls (snd (childRemovedCallback sn st)) = calls st"
  using assms
  by (simp add: childRemovedCallback_def Let_def)

lemma quiet_childRemoved_then:
  assumes "callbacks st = no_callbacks"
  shows "callbacks (snd (childRemoved_then cmp k sn st)) = no_callbacks
       \<and> calls (snd (childRemoved_then cmp k sn st)) = calls st"
  using assms quiet_removeLocation
  by (simp add: childRemoved_then_def split: sum.split)

lemma quiet_child_snapshot:
  "callbacks st = no_callbacks \<Longrightarrow>
     callbacks (snd (child_snapshot changes st)) = no_callbacks
     \<and> calls (snd (child_snapshot changes st)) = calls st"
proof (induction changes arbitrary: st)
  case Nil
  then show ?case by simp
next
  case (Cons change changes)
  define r where "r = (case fst change of
              Added \<Rightarrow> childAddedCallback (snd change) st
            | Modified \<Rightarrow> childChangedCallback (snd change) st
            | Removed \<Rightarrow> childRemovedCallback (snd change) st)"
  have q: "callbacks (snd r) = no_callbacks \<and> calls (snd r) = calls st"
    using Cons.prems quiet_childAddedCallback quiet_childChangedCallback quiet_childRemovedCallback
    by (simp add: r_def split: change_type.split)
  obtain res st1 where r: "r = (res, st1)" by (cases r)
  with q have q1: "callbacks st1 = no_callbacks" "calls st1 = calls st" by simp_all
  show ?case
  proof (cases res)
    case (Inl e)
    with r q1 show ?thesis by (simp add: r_def [symmetric])
  next
    case (Inr u)
    with r q1 Cons.IH [OF q1(1)] show ?thesis by (simp add: r_def [symmetric])
  qed
qed

lemma quiet_unsubscribe [simp]:
  "callbacks (unsubscribe h st) = callbacks st" "calls (unsubscribe h st) = calls st"
  by (simp_all add: unsubscribe_def)

lemma quiet_clearTimer [simp]:
  "callbacks (clearTimer h st) = callbacks st" "calls (clearTimer h st) = calls st"
  by (simp_all add: clearTimer_def)

lemma quiet_cancelGeohashQuery [simp]:
  "callbacks (cancelGeohashQuery q qs st) = callbacks st"
  "calls (cancelGeohashQuery q qs st) = calls st"
  by (simp_all add: cancelGeohashQuery_def)

lemma quiet_value_snapshot:
  assumes "callbacks st = no_callbacks"
  shows "callbacks (snd (value_snapshot h q st)) = no_callbacks
       \<and> calls (snd (value_snapshot h q st)) = calls st"
  using assms quiet_geohashQueryReadyCallback [of "unsubscribe h st" "Some q"]
  by (simp add: value_snapshot_def)

lemma frame_cleanUp_queries:
  "callbacks (snd (cleanUp_queries keys st)) = callbacks st
   \<and> calls (snd (cleanUp_queries keys st)) = calls st"
  by (induction keys arbitrary: st) (auto split: option.split sum.split)

lemma frame_cleanUp_locations:
  "callbacks (snd (cleanUp_locations keys st)) = callbacks st
   \<and> calls (snd (cleanUp_locations keys st)) = calls st"
  by (induction keys arbitrary: st) (auto split: option.split sum.split)

lemma frame_cleanUpCurrentGeohashesQueried:
  "callbacks (snd (cleanUpCurrentGeohashesQueried this st)) = callbacks st
   \<and> calls (snd (cleanUpCurrentGeohashesQueried this st)) = calls st"
proof (cases this)
  case Another_object
  then show ?thesis by (simp add: cleanUpCurrentGeohashesQueried_def)
next
  case The_query
  obtain r1 st1 where 1: "cleanUp_queries (dict_keys (currentGeohashesQueried st)) st = (r1, st1)"
    by (cases "cleanUp_queries (dict_keys (currentGeohashesQueried st)) st")
  obtain r2 st2 where 2: "cleanUp_locations (dict_keys (locationsTracked st1)) st1 = (r2, st2)"
    by (cases "cleanUp_locations (dict_keys (locationsTracked st1)) st1")
  from 1 frame_cleanUp_queries [of "dict_keys (currentGeohashesQueried st)" st]
  have f1: "callbacks st1 = callbacks st" "calls st1 = calls st" by simp_all
  from 2 frame_cleanUp_locations [of "dict_keys (locationsTracked st1)" st1]
  have f2: "callbacks st2 = callbacks st1" "calls st2 = calls st1" by simp_all
  show ?thesis
    using The_query 1 2 f1 f2
    by (simp add: cleanUpCurrentGeohashesQueried_def Let_def split: sum.split option.split)
qed

lemma frame_timer_fires:
  "callbacks (snd (timer_fires h st)) = callbacks st
   \<and> calls (snd (timer_fires h st)) = calls st"
  using frame_cleanUpCurrentGeohashesQueried
  by (simp add: timer_fires_def Let_def split: option.split timer_task.split)

lemma frame_subscribe_each:
  "callbacks (snd (subscribe_each qs st)) = callbacks st
   \<and> calls (snd (subscribe_each qs st)) = calls st"
  by (induction qs arbitrary: st) (auto simp: onSnapshot_def split: sum.split)

lemma quiet_listenForNewGeohashes_from:
  assumes "callbacks st = no_callbacks"
  shows "callbacks (snd (listenForNewGeohashes_from g st)) = no_callbacks
       \<and> calls (snd (listenForNewGeohashes_from g st)) = calls st"
proof -
  obtain toQuery current where m:
    "mark_each (dict_keys (currentGeohashesQueried st)) (keep_first [] g, currentGeohashesQueried st)
       = (toQuery, current)"
    by (cases "mark_each (dict_keys (currentGeohashesQueried st))
                 (keep_first [] g, currentGeohashesQueried st)")
  define st1 where "st1 = st\<lparr>currentGeohashesQueried := current\<rparr>"
  define st2 where "st2 = (if geohashCleanupScheduled st1 = False
                    \<and> length (dict_keys (currentGeohashesQueried st1)) > 25
                 then (let (h, st') = setTimeout_cleanUp (st1\<lparr>geohashCleanupScheduled := True\<rparr>)
                       in st'\<lparr>cleanUpCurrentGeohashesQueriedTimeout := Some h\<rparr>)
                 else st1)"
  define st3 where "st3 = st2\<lparr>outstandingGeohashReadyEvents := toQuery\<rparr>"
  have q3: "callbacks st3 = no_callbacks" "calls st3 = calls st"
    using assms by (simp_all add: st3_def st2_def st1_def setTimeout_cleanUp_def)
  obtain r4 st4 where s: "subscribe_each toQuery st3 = (r4, st4)"
    by (cases "subscribe_each toQuery st3")
  with frame_subscribe_each [of toQuery st3] q3
  have q4: "callbacks st4 = no_callbacks" "calls st4 = calls st" by simp_all
  have unfold: "listenForNewGeohashes_from g st =
      (case subscribe_each toQuery st3 of
           (Inl e, st4) \<Rightarrow> (Inl e, st4)
         | (Inr _, st4) \<Rightarrow>
             if length toQuery = 0 then geohashQueryReadyCallback None st4
             else (Inr (), st4))"
    by (simp add: listenForNewGeohashes_from_def m st1_def st2_def st3_def Let_def)
  show ?thesis
    using q4 s quiet_geohashQueryReadyCallback [OF q4(1), of None]
    by (simp add: unfold split: sum.split)
qed

lemma quiet_listenForNewGeohashes:
  assumes "callbacks st = no_callbacks"
  shows "callbacks (snd (listenForNewGeohashes st)) = no_callbacks
       \<and> calls (snd (listenForNewGeohashes st)) = calls st"
  using assms quiet_listenForNewGeohashes_from
  by (simp add: listenForNewGeohashes_def split: sum.split)

lemma quiet_updateCriteria_loop:
  "callbacks st = no_callbacks \<Longrightarrow>
     callbacks (snd (updateCriteria_loop keys st)) = no_callbacks
     \<and> calls (snd (updateCriteria_loop keys st)) = calls st"
proof (induction keys arbitrary: st)
  case Nil
  then show ?case by simp
next
  case (Cons key keys)
  show ?case
  proof (cases "cancelled st")
    case True
    with Cons.prems show ?thesis by simp
  next
    case False
    show ?thesis
    proof (cases "map_of (locationsTracked st) key")
      case None
      with False Cons.prems show ?thesis by simp
    next
      case (Some ld)
      show ?thesis
      proof (cases "distance (location ld) (center st)")
        case (Inl e)
        with False Some Cons.prems show ?thesis by simp
      next
        case (Inr d)
        define st1 where "st1 = st\<lparr>locationsTracked :=
          dict_set key (ld\<lparr>distanceFromCenter := d, isInQuery := (d \<le> radius st)\<rparr>) (locationsTracked st)\<rparr>"
        have q1: "callbacks st1 = no_callbacks" "calls st1 = calls st"
          using Cons.prems by (simp_all add: st1_def)
        have "updateCriteria_loop (key # keys) st = updateCriteria_loop keys st1"
          using False Some Inr Cons.prems
          by (simp add: Let_def st1_def quiet_fireCallbacksForKey)
        with Cons.IH [OF q1(1)] q1 show ?thesis by simp
      qed
    qed
  qed
qed

lemma quiet_updateCriteria:
  assumes "callbacks st = no_callbacks"
  shows "callbacks (snd (updateCriteria crit st)) = no_callbacks
       \<and> calls (snd (updateCriteria crit st)) = calls st"
proof (cases "validateCriteria crit False")
  case (Inl e)
  with assms show ?thesis by (simp add: updateCriteria_def)
next
  case (Inr u)
  define st1 where "st1 = st\<lparr>center := (if js_truthy (get_prop crit ''center'')
                                    then loc_of (get_prop crit ''center'')
                                    else center st),
                        radius := (if js_truthy (get_prop crit ''radius'')
                                    then num_of (get_prop crit ''radius'')
                                    else radius st)\<rparr>"
  have q1: "callbacks st1 = no_callbacks" "calls st1 = calls st"
    using assms by (simp_all add: st1_def)
  obtain r2 st2 where l: "updateCriteria_loop (dict_keys (locationsTracked st1)) st1 = (r2, st2)"
    by (cases "updateCriteria_loop (dict_keys (locationsTracked st1)) st1")
  with quiet_updateCriteria_loop [OF q1(1), of "dict_keys (locationsTracked st1)"] q1
  have q2: "callbacks st2 = no_callbacks" "calls st2 = calls st" by simp_all
  then have q2': "callbacks (st2\<lparr>valueEventFired := False\<rparr>) = no_callbacks" by simp
  show ?thesis
    using Inr l q2 quiet_listenForNewGeohashes [OF q2']
    by (simp add: updateCriteria_def Let_def st1_def [symmetric] split: sum.split)
qed

lemma frame_cancel_each:
  "callbacks (snd (cancel_each keys st)) = callbacks st
   \<and> calls (snd (cancel_each keys st)) = calls st
   \<and> cancelled (snd (cancel_each keys st)) = cancelled st"
  by (induction keys arbitrary: st)
     (auto simp: cancelGeohashQuery_def unsubscribe_def split: option.split sum.split)

lemma cancel_quiet:
  "callbacks (snd (cancel st)) = no_callbacks \<and> cancelled (snd (cancel st))
   \<and> calls (snd (cancel st)) = calls st"
proof -
  define st1 where "st1 = st\<lparr>cancelled := True, callbacks := no_callbacks\<rparr>"
  obtain r st2 where c: "cancel_each (dict_keys (currentGeohashesQueried st1)) st1 = (r, st2)"
    by (cases "cancel_each (dict_keys (currentGeohashesQueried st1)) st1")
  with frame_cancel_each [of "dict_keys (currentGeohashesQueried st1)" st1]
  have "callbacks st2 = no_callbacks" "cancelled st2" "calls st2 = calls st"
    by (simp_all add: st1_def)
  with c show ?thesis
    by (simp add: cancel_def Let_def st1_def [symmetric] clearTimer_def split: sum.split)
qed

lemma quiet_react:
  assumes "callbacks st = no_callbacks"
  shows "callbacks (snd (react s st)) = no_callbacks \<and> calls (snd (react s st)) = calls st"
proof (cases s)
  case (Child_snapshot changes)
  with assms quiet_child_snapshot show ?thesis by simp
next
  case (Get_completed cmp key snap)
  with assms quiet_childRemoved_then show ?thesis by simp
next
  case (Value_snapshot h q)
  with assms quiet_value_snapshot show ?thesis by simp
next
  case (Timer_fires h)
  with assms frame_timer_fires [of h st] show ?thesis by simp
next
  case (Update_criteria crit)
  with assms quiet_updateCriteria show ?thesis by simp
qed

lemma quiet_run:
  "callbacks st = no_callbacks \<Longrightarrow> calls (run ss st) = calls st"
proof (induction ss arbitrary: st)
  case Nil
  then show ?case by simp
next
  case (Cons s ss)
  from quiet_react [OF Cons.prems, of s]
  have "callbacks (snd (react s st)) = no_callbacks" "calls (snd (react s st)) = calls st"
    by simp_all
  with Cons.IH [of "snd (react s st)"] show ?case by simp
qed

lemma distance_origin: "distance (0, 0) (0, 0) = Inr 0"
  by (simp add: distance_def validateLocation_def to_js_def not_a_number_def num_of_def
      degreesToRadians_def atan2_def Let_def)

text \<open>
  Claim C4, as amended. After \<open>cancel()\<close>, however it ended, nothing that the store,
  the timers or \<open>updateCriteria\<close> do to the query calls a callback: the record of calls
  stays as \<open>cancel()\<close> left it. (Callbacks registered after \<open>cancel()\<close> are not
  considered.) And the loop of \<open>updateCriteria\<close> over the tracked keys, when it finds
  the query cancelled, ends at once without touching a further key.
\<close>

theorem no_callbacks_after_cancel:
  "(\<forall>r st1 stimuli. cancel st = (r, st1) \<longrightarrow> calls (run stimuli st1) = calls st1)
   \<and> (\<forall>keys. cancelled st' \<longrightarrow> updateCriteria_loop keys st' = (Inr (), st'))"
proof (intro conjI allI impI)
  fix r st1 stimuli
  assume "cancel st = (r, st1)"
  with cancel_quiet [of st] have "callbacks st1 = no_callbacks" by simp
  then show "calls (run stimuli st1) = calls st1" by (rule quiet_run)
next
  fix keys
  assume "cancelled st'"
  then show "updateCriteria_loop keys st' = (Inr (), st')" by (cases keys) simp_all
qed

text \<open>The theorem at work on the query with two tracked keys and two callbacks.\<close>

theorem no_callbacks_after_cancel_witness:
  "cancel two_listeners_query = (Inr (), snd (cancel two_listeners_query))
   \<and> calls (run [Timer_fires 0, Value_snapshot 5 ''7zzzzw:7zzzz~'', Child_snapshot []]
               (snd (cancel two_listeners_query)))
       = calls (snd (cancel two_listeners_query))
   \<and> cancelled (snd (cancel two_listeners_query))
   \<and> updateCriteria_loop [''k1'', ''k2''] (snd (cancel two_listeners_query))
       = (Inr (), snd (cancel two_listeners_query))"
proof -
  have c: "cancel two_listeners_query = (Inr (), snd (cancel two_listeners_query))"
    by code_simp
  have d: "cancelled (snd (cancel two_listeners_query))"
    by code_simp
  from no_callbacks_after_cancel [of two_listeners_query "snd (cancel two_listeners_query)"] c d
  show ?thesis by blast
qed

text \<open>
  Claim C4 as it is stated fails for the callbacks of the event during which
  \<open>cancel()\<close> is called. The loop of \<open>updateCriteria\<close> finds that \<open>k1\<close> has entered and
  calls the \<open>key_entered\<close> callbacks; the first one (identity 3) cancels the query, and
  the second one (identity 2) is called all the same, on a query that is cancelled.
  The loop then ends: there is no call for \<open>k2\<close>.
\<close>

theorem no_callbacks_after_cancel_counterexample:
  "cancelled (snd (invoke cbC
       (Key_invoked ''key_entered'' 3 ''k1'' (Some (0, 0)) (Some 0) JNull)
       (two_listeners_query\<lparr>locationsTracked :=
           [(''k1'', far_away\<lparr>distanceFromCenter := 0, isInQuery := True\<rparr>), (''k2'', far_away)]\<rparr>)))
   \<and> calls (snd (updateCriteria_loop [''k1'', ''k2''] two_listeners_query))
       = [Key_invoked ''key_entered'' 3 ''k1'' (Some (0, 0)) (Some 0) JNull,
          Key_invoked ''key_entered'' 2 ''k1'' (Some (0, 0)) (Some 0) JNull]"
proof -
  have 1: "cancelled (snd (invoke cbC
       (Key_invoked ''key_entered'' 3 ''k1'' (Some (0, 0)) (Some 0) JNull)
       (two_listeners_query\<lparr>locationsTracked :=
           [(''k1'', far_away\<lparr>distanceFromCenter := 0, isInQuery := True\<rparr>), (''k2'', far_away)]\<rparr>)))"
    using cancel_quiet by (simp add: invoke_def cbC_def Let_def)
  have c: "center two_listeners_query = (0, 0)" "radius two_listeners_query = 1"
     "cancelled two_listeners_query = False"
     "locationsTracked two_listeners_query = [(''k1'', far_away), (''k2'', far_away)]"
     "callbacks two_listeners_query = no_callbacks\<lparr>key_entered := [cbC, cbB]\<rparr>"
     "calls two_listeners_query = []"
     "currentGeohashesQueried two_listeners_query = []"
    by (simp_all add: two_listeners_query_def example_query_def initial_state_def example_env_def)
  have 2: "calls (snd (updateCriteria_loop [''k1'', ''k2''] two_listeners_query))
       = [Key_invoked ''key_entered'' 3 ''k1'' (Some (0, 0)) (Some 0) JNull,
          Key_invoked ''key_entered'' 2 ''k1'' (Some (0, 0)) (Some 0) JNull]"
    by (simp add: c far_away_def distance_origin Let_def fireCallbacksForKey_def
        get_callbacks_def no_callbacks_def invoke_def cbC_def cbB_def cancel_def dict_keys_def
        clearTimer_def)
  from 1 2 show ?thesis by simp
qed

section \<open>Criteria updates\<close>

lemma criteria_cancel_each:
  "center (snd (cancel_each keys st)) = center st \<and> radius (snd (cancel_each keys st)) = radius st"
  by (induction keys arbitrary: st)
     (auto simp: cancelGeohashQuery_def unsubscribe_def split: option.split sum.split)

lemma criteria_cancel:
  "center (snd (cancel st)) = center st \<and> radius (snd (cancel st)) = radius st"
proof -
  define st1 where "st1 = st\<lparr>cancelled := True, callbacks := no_callbacks\<rparr>"
  obtain r st2 where c: "cancel_each (dict_keys (currentGeohashesQueried st1)) st1 = (r, st2)"
    by (cases "cancel_each (dict_keys (currentGeohashesQueried st1)) st1")
  with criteria_cancel_each [of "dict_keys (currentGeohashesQueried st1)" st1]
  have "center st2 = center st" "radius st2 = radius st"
    by (simp_all add: st1_def)
  with c show ?thesis
    by (simp add: cancel_def Let_def st1_def [symmetric] clearTimer_def split: sum.split)
qed

lemma criteria_invoke:
  "center (snd (invoke cb c st)) = center st \<and> radius (snd (invoke cb c st)) = radius st"
  using criteria_cancel [of "st\<lparr>calls := calls st @ [c]\<rparr>"]
  by (simp add: invoke_def Let_def split: action.split)

lemma criteria_invoke_each:
  "center (snd (invoke_each cbs mk st)) = center st
   \<and> radius (snd (invoke_each cbs mk st)) = radius st"
proof (induction cbs arbitrary: st)
  case Nil
  then show ?case by simp
next
  case (Cons cb cbs)
  obtain r st1 where i: "invoke cb (mk cb) st = (r, st1)" by (cases "invoke cb (mk cb) st")
  with criteria_invoke [of cb "mk cb" st]
  have "center st1 = center st" "radius st1 = radius st" by simp_all
  with i Cons.IH [of st1] show ?case by (simp split: sum.split)
qed

lemma criteria_fireCallbacksForKey:
  "center (snd (fireCallbacksForKey ev k l d doc st)) = center st
   \<and> radius (snd (fireCallbacksForKey ev k l d doc st)) = radius st"
  by (simp add: fireCallbacksForKey_def criteria_invoke_each)

lemma criteria_fireReadyEventCallbacks:
  "center (snd (fireReadyEventCallbacks st)) = center st
   \<and> radius (snd (fireReadyEventCallbacks st)) = radius st"
  by (simp add: fireReadyEventCallbacks_def criteria_invoke_each)

lemma criteria_geohashQueryReadyCallback:
  "center (snd (geohashQueryReadyCallback q st)) = center st
   \<and> radius (snd (geohashQueryReadyCallback q st)) = radius st"
  by (simp add: geohashQueryReadyCallback_def Let_def criteria_fireReadyEventCallbacks)

lemma criteria_subscribe_each:
  "center (snd (subscribe_each qs st)) = center st
   \<and> radius (snd (subscribe_each qs st)) = radius st"
  by (induction qs arbitrary: st) (auto simp: onSnapshot_def split: sum.split)

lemma criteria_listenForNewGeohashes_from:
  "center (snd (listenForNewGeohashes_from g st)) = center st
   \<and> radius (snd (listenForNewGeohashes_from g st)) = radius st"
proof -
  obtain toQuery current where m:
    "mark_each (dict_keys (currentGeohashesQueried st)) (keep_first [] g, currentGeohashesQueried st)
       = (toQuery, current)"
    by (cases "mark_each (dict_keys (currentGeohashesQueried st))
                 (keep_first [] g, currentGeohashesQueried st)")
  define st1 where "st1 = st\<lparr>currentGeohashesQueried := current\<rparr>"
  define st2 where "st2 = (if geohashCleanupScheduled st1 = False
                    \<and> length (dict_keys (currentGeohashesQueried st1)) > 25
                 then (let (h, st') = setTimeout_cleanUp (st1\<lparr>geohashCleanupScheduled := True\<rparr>)
                       in st'\<lparr>cleanUpCurrentGeohashesQueriedTimeout := Some h\<rparr>)
                 else st1)"
  define st3 where "st3 = st2\<lparr>outstandingGeohashReadyEvents := toQuery\<rparr>"
  have q3: "center st3 = center st" "radius st3 = radius st"
    by (simp_all add: st3_def st2_def st1_def setTimeout_cleanUp_def)
  obtain r4 st4 where s: "subscribe_each toQuery st3 = (r4, st4)"
    by (cases "subscribe_each toQuery st3")
  with criteria_subscribe_each [of toQuery st3] q3
  have q4: "center st4 = center st" "radius st4 = radius st" by simp_all
  have unfold: "listenForNewGeohashes_from g st =
      (case subscribe_each toQuery st3 of
           (Inl e, st4) \<Rightarrow> (Inl e, st4)
         | (Inr _, st4) \<Rightarrow>
             if length toQuery = 0 then geohashQueryReadyCallback None st4
             else (Inr (), st4))"
    by (simp add: listenForNewGeohashes_from_def m st1_def st2_def st3_def Let_def)
  show ?thesis
    using q4 s criteria_geohashQueryReadyCallback [of None st4]
    by (simp add: unfold split: sum.split)
qed

lemma criteria_listenForNewGeohashes:
  "center (snd (listenForNewGeohashes st)) = center st
   \<and> radius (snd (listenForNewGeohashes st)) = radius st"
  using criteria_listenForNewGeohashes_from
  by (simp add: listenForNewGeohashes_def split: sum.split)

lemma criteria_updateCriteria_loop:
  "center (snd (updateCriteria_loop keys st)) = center st
   \<and> radius (snd (updateCriteria_loop keys st)) = radius st"
proof (induction keys arbitrary: st)
  case Nil
  then show ?case by simp
next
  case (Cons key keys)
  show ?case
  proof (cases "cancelled st")
    case True
    then show ?thesis by simp
  next
    case False
    show ?thesis
    proof (cases "map_of (locationsTracked st) key")
      case None
      with False show ?thesis by simp
    next
      case (Some ld)
      show ?thesis
      proof (cases "distance (location ld) (center st)")
        case (Inl e)
        with False Some show ?thesis by simp
      next
        case (Inr d)
        define ld' where "ld' = ld\<lparr>distanceFromCenter := d, isInQuery := (d \<le> radius st)\<rparr>"
        define st1 where "st1 = st\<lparr>locationsTracked := dict_set key ld' (locationsTracked st)\<rparr>"
        define r where "r = (if isInQuery ld \<and> \<not> isInQuery ld' then
                              fireCallbacksForKey ''key_exited'' key (Some (location ld'))
                                (Some (distanceFromCenter ld')) (document ld') st1
                            else if \<not> isInQuery ld \<and> isInQuery ld' then
                              fireCallbacksForKey ''key_entered'' key (Some (location ld'))
                                (Some (distanceFromCenter ld')) (document ld') st1
                            else (Inr (), st1))"
        have q1: "center st1 = center st" "radius st1 = radius st" by (simp_all add: st1_def)
        have qr: "center (snd r) = center st" "radius (snd r) = radius st"
          using q1 criteria_fireCallbacksForKey by (simp_all add: r_def)
        have u: "updateCriteria_loop (key # keys) st =
            (case r of (Inl e, st2) \<Rightarrow> (Inl e, st2) | (Inr _, st2) \<Rightarrow> updateCriteria_loop keys st2)"
          using False Some Inr
          by (simp add: Let_def r_def st1_def ld'_def)
        obtain res st2 where r: "r = (res, st2)" by (cases r)
        with qr have q2: "center st2 = center st" "radius st2 = radius st" by simp_all
        show ?thesis
          using u r q2 Cons.IH [of st2] by (simp split: sum.split)
      qed
    qed
  qed
qed

lemma criteria_updateCriteria:
  "validateCriteria crit False = Inr () \<Longrightarrow>
   center (snd (updateCriteria crit st)) =
     (if js_truthy (get_prop crit ''center'') then loc_of (get_prop crit ''center'') else center st)
   \<and> radius (snd (updateCriteria crit st)) =
     (if js_truthy (get_prop crit ''radius'') then num_of (get_prop crit ''radius'') else radius st)"
proof -
  assume v: "validateCriteria crit False = Inr ()"
  define st1 where "st1 = st\<lparr>center := (if js_truthy (get_prop crit ''center'')
                                    then loc_of (get_prop crit ''center'')
                                    else center st),
                        radius := (if js_truthy (get_prop crit ''radius'')
                                    then num_of (get_prop crit ''radius'')
                                    else radius st)\<rparr>"
  obtain r2 st2 where l: "updateCriteria_loop (dict_keys (locationsTracked st1)) st1 = (r2, st2)"
    by (cases "updateCriteria_loop (dict_keys (locationsTracked st1)) st1")
  with criteria_updateCriteria_loop [of "dict_keys (locationsTracked st1)" st1]
  have q2: "center st2 = center st1" "radius st2 = radius st1" by simp_all
  have q3: "center (snd (listenForNewGeohashes (st2\<lparr>valueEventFired := False\<rparr>))) = center st1"
      "radius (snd (listenForNewGeohashes (st2\<lparr>valueEventFired := False\<rparr>))) = radius st1"
    using criteria_listenForNewGeohashes [of "st2\<lparr>valueEventFired := False\<rparr>"] q2 by simp_all
  have c1: "center st1 = (if js_truthy (get_prop crit ''center'') then loc_of (get_prop crit ''center'') else center st)"
    and r1: "radius st1 = (if js_truthy (get_prop crit ''radius'') then num_of (get_prop crit ''radius'') else radius st)"
    by (simp_all add: st1_def)
  have "center (snd (updateCriteria crit st)) = center st1 \<and> radius (snd (updateCriteria crit st)) = radius st1"
    using v l q2 q3
    by (simp add: updateCriteria_def Let_def st1_def [symmetric] split: sum.split)
  with c1 r1 show ?thesis by simp
qed

text \<open>
  Claim C3 at the radius 0. The criteria \<open>{radius: 0}\<close> are valid, and
  \<open>updateCriteria({radius: 0})\<close> on a query of radius 5 leaves the radius at 5: the
  source stores \<open>newQueryCriteria.radius || this._radius\<close>, and 0 is falsy. The center
  stays as it was.
\<close>

theorem updateCriteria_zero_radius_not_stored:
  "validateCriteria (JObj [(''radius'', JNum 0)]) False = Inr ()
   \<and> radius (snd (updateCriteria (JObj [(''radius'', JNum 0)]) (example_query\<lparr>radius := 5\<rparr>))) = 5
   \<and> center (snd (updateCriteria (JObj [(''radius'', JNum 0)]) (example_query\<lparr>radius := 5\<rparr>))) = (0, 0)"
proof -
  have v: "validateCriteria (JObj [(''radius'', JNum 0)]) False = Inr ()"
    by code_simp
  have t: "js_truthy (get_prop (JObj [(''radius'', JNum 0)]) ''radius'') = False"
      "js_truthy (get_prop (JObj [(''radius'', JNum 0)]) ''center'') = False"
    by code_simp+
  have c: "center (example_query\<lparr>radius := 5\<rparr>) = (0, 0)" "radius (example_query\<lparr>radius := 5\<rparr>) = 5"
    by (simp_all add: example_query_def)
  from criteria_updateCriteria [OF v, of "example_query\<lparr>radius := 5\<rparr>"] v t c
  show ?thesis by simp
qed

section \<open>Cancelling a query and its timers\<close>





section \<open>The cleanup of the registry\<close>

lemma map_of_append_fresh:
  "k \<notin> fst ` set xs \<Longrightarrow> map_of (xs @ ys) k = map_of ys k"
  by (induction xs) auto

lemma dict_delete_fresh: "k \<notin> fst ` set xs \<Longrightarrow> dict_delete k xs = xs"
  by (induction xs) (auto simp: dict_delete_def)

lemma dict_delete_middle:
  "k \<notin> fst ` set xs \<Longrightarrow> k \<notin> fst ` set ys \<Longrightarrow> dict_delete k (xs @ (k, v) # ys) = xs @ ys"
  using dict_delete_fresh [of k xs] dict_delete_fresh [of k ys]
  by (simp add: dict_delete_def)

lemma geohashInSomeQuery_loop_covered:
  "list_all (\<lambda>queryStr. case stringToQuery queryStr of Inl e \<Rightarrow> False | Inr query \<Rightarrow> True) keys \<Longrightarrow>
   geohashInSomeQuery_loop (in_range gh) keys =
     Inr (list_ex (\<lambda>queryStr. case stringToQuery queryStr of
                            Inl e \<Rightarrow> False
                          | Inr query \<Rightarrow> in_range gh (fst query) (snd query)) keys)"
  by (induction keys) (auto split: sum.splits)

lemma cleanUp_queries_sweep:
  assumes "distinct (map fst (pre @ rest))"
    and "list_all (\<lambda>queryStr. case stringToQuery queryStr of Inl e \<Rightarrow> False | Inr query \<Rightarrow> True)
           (map fst rest)"
    and "currentGeohashesQueried st = pre @ rest"
  shows "\<exists>l. cleanUp_queries (map fst rest) st =
           (Inr (), st\<lparr>listeners := l,
                       currentGeohashesQueried := pre @ filter (\<lambda>p. active (snd p)) rest\<rparr>)"
  using assms
proof (induction rest arbitrary: pre st)
  case Nil
  have "st = st\<lparr>listeners := listeners st, currentGeohashesQueried := pre\<rparr>"
    using Nil.prems(3) by simp
  then show ?case
    by (metis append_Nil2 cleanUp_queries.simps(1) filter.simps(1) list.simps(8))
next
  case (Cons p rest)
  obtain k qs where p: "p = (k, qs)" by (cases p)
  from Cons.prems(1) have fresh: "k \<notin> fst ` set pre" "k \<notin> fst ` set rest"
    by (auto simp: p)
  have look: "map_of (currentGeohashesQueried st) k = Some qs"
    using Cons.prems(3) map_of_append_fresh [OF fresh(1), of "p # rest"]
    by (simp add: p del: map_of_append)
  from Cons.prems(2) obtain query where parse: "stringToQuery k = Inr query"
    by (auto simp: p split: sum.splits)
  show ?case
  proof (cases "active qs")
    case True
    have d: "distinct (map fst ((pre @ [p]) @ rest))" using Cons.prems(1) by simp
    have w: "list_all (\<lambda>queryStr. case stringToQuery queryStr of Inl e \<Rightarrow> False | Inr query \<Rightarrow> True)
           (map fst rest)" using Cons.prems(2) by simp
    have c: "currentGeohashesQueried st = (pre @ [p]) @ rest" using Cons.prems(3) by simp
    from Cons.IH [OF d w c] obtain l where
      "cleanUp_queries (map fst rest) st =
           (Inr (), st\<lparr>listeners := l,
                       currentGeohashesQueried := (pre @ [p]) @ filter (\<lambda>p. active (snd p)) rest\<rparr>)"
      by blast
    with True look have "cleanUp_queries (map fst (p # rest)) st =
           (Inr (), st\<lparr>listeners := l,
                       currentGeohashesQueried := pre @ filter (\<lambda>p. active (snd p)) (p # rest)\<rparr>)"
      by (simp add: p)
    then show ?thesis by blast
  next
    case False
    define st1 where "st1 = (cancelGeohashQuery query qs st)
                      \<lparr>currentGeohashesQueried := dict_delete k (currentGeohashesQueried st)\<rparr>"
    have c1: "currentGeohashesQueried st1 = pre @ rest"
      using Cons.prems(3) fresh by (simp add: st1_def p dict_delete_middle)
    have d: "distinct (map fst (pre @ rest))" using Cons.prems(1) by simp
    have w: "list_all (\<lambda>queryStr. case stringToQuery queryStr of Inl e \<Rightarrow> False | Inr query \<Rightarrow> True)
           (map fst rest)" using Cons.prems(2) by simp
    from Cons.IH [OF d w c1] obtain l where
      l: "cleanUp_queries (map fst rest) st1 =
           (Inr (), st1\<lparr>listeners := l,
                       currentGeohashesQueried := pre @ filter (\<lambda>p. active (snd p)) rest\<rparr>)"
      by blast
    have "st1\<lparr>listeners := l, currentGeohashesQueried := pre @ filter (\<lambda>p. active (snd p)) rest\<rparr>
        = st\<lparr>listeners := l, currentGeohashesQueried := pre @ filter (\<lambda>p. active (snd p)) rest\<rparr>"
      by (simp add: st1_def cancelGeohashQuery_def unsubscribe_def)
    with l False look parse have "cleanUp_queries (map fst (p # rest)) st =
           (Inr (), st\<lparr>listeners := l,
                       currentGeohashesQueried := pre @ filter (\<lambda>p. active (snd p)) (p # rest)\<rparr>)"
      by (simp add: p st1_def)
    then show ?thesis by blast
  qed
qed

lemma cleanUp_locations_sweep:
  assumes "distinct (map fst (pre @ rest))"
    and "list_all (\<lambda>queryStr. case stringToQuery queryStr of Inl e \<Rightarrow> False | Inr query \<Rightarrow> True)
           (dict_keys (currentGeohashesQueried st))"
    and "locationsTracked st = pre @ rest"
    and "remaining_ranges st = currentGeohashesQueried st"
  shows "cleanUp_locations (map fst rest) st =
           ((if list_ex (fatal st) rest then Inl Internal_state_error else Inr ()),
            st\<lparr>locationsTracked :=
                 pre @ filter (\<lambda>p. \<not> uncovered st p) (takeWhile (\<lambda>p. \<not> fatal st p) rest)
                     @ dropWhile (\<lambda>p. \<not> fatal st p) rest\<rparr>)"
  using assms
proof (induction rest arbitrary: pre st)
  case Nil
  then show ?case by simp
next
  case (Cons p rest)
  obtain k ld where p: "p = (k, ld)" by (cases p)
  from Cons.prems(1) have fresh: "k \<notin> fst ` set pre" "k \<notin> fst ` set rest"
    by (auto simp: p)
  have look: "map_of (locationsTracked st) k = Some ld"
    using Cons.prems(3) map_of_append_fresh [OF fresh(1), of "p # rest"]
    by (simp add: p del: map_of_append)
  have cov: "geohashInSomeQuery (in_range (geohash ld)) st = Inr (\<not> uncovered st p)"
    using geohashInSomeQuery_loop_covered [OF Cons.prems(2), of "geohash ld"] Cons.prems(4)
    by (simp add: geohashInSomeQuery_def uncovered_def covered_by_def p)
  show ?case
  proof (cases "uncovered st p")
    case False
    then have nf: "\<not> fatal st p" by (simp add: fatal_def)
    have d: "distinct (map fst ((pre @ [p]) @ rest))" using Cons.prems(1) by simp
    have c: "locationsTracked st = (pre @ [p]) @ rest" using Cons.prems(3) by simp
    from Cons.IH [OF d Cons.prems(2) c Cons.prems(4)] False nf look cov
    show ?thesis by (simp add: p)
  next
    case True
    show ?thesis
    proof (cases "isInQuery ld")
      case inq: True
      with True have f: "fatal st p" by (simp add: fatal_def p)
      have "st = st\<lparr>locationsTracked := pre @ p # rest\<rparr>" using Cons.prems(3) by simp
      with f True inq look cov show ?thesis by (simp add: p)
    next
      case ninq: False
      then have nf: "\<not> fatal st p" by (simp add: fatal_def p)
      define st1 where "st1 = st\<lparr>locationsTracked := dict_delete k (locationsTracked st)\<rparr>"
      have c1: "locationsTracked st1 = pre @ rest"
        using Cons.prems(3) fresh by (simp add: st1_def p dict_delete_middle)
      have d: "distinct (map fst (pre @ rest))" using Cons.prems(1) by simp
      have w: "list_all (\<lambda>queryStr. case stringToQuery queryStr of Inl e \<Rightarrow> False | Inr query \<Rightarrow> True)
           (dict_keys (currentGeohashesQueried st1))" using Cons.prems(2) by (simp add: st1_def)
      have r: "remaining_ranges st1 = currentGeohashesQueried st1"
        using Cons.prems(4) by (simp add: st1_def remaining_ranges_def)
      have same: "fatal st1 = fatal st" "uncovered st1 = uncovered st"
        by (auto simp: fatal_def uncovered_def remaining_ranges_def st1_def fun_eq_iff)
      from Cons.IH [OF d w c1 r]
      have "cleanUp_locations (map fst rest) st1 =
           ((if list_ex (fatal st) rest then Inl Internal_state_error else Inr ()),
            st\<lparr>locationsTracked :=
                 pre @ filter (\<lambda>p. \<not> uncovered st p) (takeWhile (\<lambda>p. \<not> fatal st p) rest)
                     @ dropWhile (\<lambda>p. \<not> fatal st p) rest\<rparr>)"
        by (simp add: same) (simp add: st1_def)
      with True ninq nf look cov show ?thesis by (simp add: p st1_def)
    qed
  qed
qed

text \<open>
  Claim C7, as amended. The cleanup visits the tracked keys in the order of the
  registry. It throws the internal-state error exactly when some tracked key is in
  no remaining range and marked as in the query, and it stops at the first such key.
  Of the keys before that one (all keys, when there is none), those in no remaining
  range are deleted and those in a range are kept; that key and all keys behind it
  are kept as they are. In particular a key marked as in the query is never deleted,
  and a key in a remaining range is never touched.
\<close>

theorem cleanUp_registry:
  assumes wf: "well_formed st"
  shows "fst (cleanUpCurrentGeohashesQueried The_query st) =
            (if list_ex (fatal st) (locationsTracked st) then Inl Internal_state_error else Inr ())
       \<and> locationsTracked (snd (cleanUpCurrentGeohashesQueried The_query st)) =
            filter (\<lambda>p. \<not> uncovered st p) (takeWhile (\<lambda>p. \<not> fatal st p) (locationsTracked st))
              @ dropWhile (\<lambda>p. \<not> fatal st p) (locationsTracked st)"
proof -
  let ?parse = "\<lambda>queryStr. case stringToQuery queryStr of Inl e \<Rightarrow> False | Inr query \<Rightarrow> True"
  from wf have d1: "distinct (map fst ([] @ currentGeohashesQueried st))"
    and d2: "distinct (map fst (locationsTracked st))"
    and p: "list_all ?parse (map fst (currentGeohashesQueried st))"
    by (simp_all add: well_formed_def dict_keys_def)
  from cleanUp_queries_sweep [OF d1 p] obtain l where
    q: "cleanUp_queries (map fst (currentGeohashesQueried st)) st =
           (Inr (), st\<lparr>listeners := l, currentGeohashesQueried := remaining_ranges st\<rparr>)"
    by (auto simp: remaining_ranges_def)
  define st1 where "st1 = st\<lparr>listeners := l, currentGeohashesQueried := remaining_ranges st\<rparr>"
  have p1: "list_all ?parse (dict_keys (currentGeohashesQueried st1))"
    using p by (auto simp: st1_def remaining_ranges_def dict_keys_def list_all_iff)
  have r1: "remaining_ranges st1 = currentGeohashesQueried st1"
    by (simp add: st1_def remaining_ranges_def)
  have same: "fatal st1 = fatal st" "uncovered st1 = uncovered st"
    by (auto simp: fatal_def uncovered_def remaining_ranges_def st1_def fun_eq_iff)
  have d2': "distinct (map fst ([] @ locationsTracked st1))" using d2 by (simp add: st1_def)
  have t1: "locationsTracked st1 = [] @ locationsTracked st" by (simp add: st1_def)
  have lt: "locationsTracked st1 = locationsTracked st" by (simp add: st1_def)
  have t1': "locationsTracked st1 = [] @ locationsTracked st1" by simp
  from cleanUp_locations_sweep [OF d2' p1 t1' r1]
  have s: "cleanUp_locations (map fst (locationsTracked st1)) st1 =
           ((if list_ex (fatal st) (locationsTracked st) then Inl Internal_state_error else Inr ()),
            st1\<lparr>locationsTracked :=
                 filter (\<lambda>p. \<not> uncovered st p) (takeWhile (\<lambda>p. \<not> fatal st p) (locationsTracked st))
                     @ dropWhile (\<lambda>p. \<not> fatal st p) (locationsTracked st)\<rparr>)"
    by (simp add: same lt)
  show ?thesis
    using q s
    by (simp add: cleanUpCurrentGeohashesQueried_def dict_keys_def st1_def [symmetric] Let_def
        clearTimer_def split: option.split)
qed

text \<open>The theorem at work: \<open>b\<close> is only in the range that is inactive and \<open>d\<close> in
  none, so both are deleted; \<open>a\<close> and \<open>c\<close> are in the active range and stay.\<close>

theorem cleanUp_registry_witness:
  "well_formed swept_query
   \<and> fst (cleanUpCurrentGeohashesQueried The_query swept_query) = Inr ()
   \<and> locationsTracked (snd (cleanUpCurrentGeohashesQueried The_query swept_query))
       = [(''a'', tracked ''7zzzzzzzzz'' True), (''c'', tracked ''7zzzzx0000'' False)]"
proof -
  have wf: "well_formed swept_query"
    by code_simp
  have f: "list_ex (fatal swept_query) (locationsTracked swept_query) = False"
    by code_simp
  have l: "filter (\<lambda>p. \<not> uncovered swept_query p)
             (takeWhile (\<lambda>p. \<not> fatal swept_query p) (locationsTracked swept_query))
           @ dropWhile (\<lambda>p. \<not> fatal swept_query p) (locationsTracked swept_query)
       = [(''a'', tracked ''7zzzzzzzzz'' True), (''c'', tracked ''7zzzzx0000'' False)]"
    by code_simp
  from cleanUp_registry [OF wf] wf f l show ?thesis by simp
qed

text \<open>
  Claim C7 as it is stated fails for a key behind the one that raises the error:
  \<open>k2\<close> is in no range and not marked as in the query, but the cleanup has thrown at
  \<open>k1\<close> and \<open>k2\<close> is not deleted.
\<close>

theorem cleanUp_registry_counterexample:
  "map_of (locationsTracked desynchronised_query) ''k2'' = Some (tracked ''s000000000'' False)
   \<and> isInQuery (tracked ''s000000000'' False) = False
   \<and> geohashInSomeQuery (in_range ''s000000000'') desynchronised_query = Inr False
   \<and> cleanUpCurrentGeohashesQueried The_query desynchronised_query
       = (Inl Internal_state_error, desynchronised_query)"
  by code_simp

section \<open>The one-shot cleanup\<close>

text \<open>
  Claim C6 on the query with 30 ranges of which 5 stay wanted. The one-shot cleanup
  is scheduled (handle 61, 10 ms) and 25 ranges are marked inactive. When the timer
  fires, the method runs without the query as its receiver and throws a \<open>TypeError\<close>
  at its first statement: all 30 ranges and their 30 listeners are still there, and
  \<open>_geohashCleanupScheduled\<close> stays \<open>true\<close>, so that the periodic cleanup (handle 0)
  does nothing either.
\<close>

theorem one_shot_cleanup_fails:
  "fst (listenForNewGeohashes_from (map range_key [0 ..< 5]) (query_with_ranges 30)) = Inr ()
   \<and> length (currentGeohashesQueried (query_with_ranges 30)) = 30
   \<and> geohashCleanupScheduled shrunk_query = True
   \<and> cleanUpCurrentGeohashesQueriedTimeout shrunk_query = Some 61
   \<and> timers shrunk_query = [interval_timer 0, timeout_timer 61]
   \<and> map (\<lambda>p. active (snd p)) (currentGeohashesQueried shrunk_query)
       = replicate 5 True @ replicate 25 False
   \<and> timer_fires 61 shrunk_query = (Inl TypeError, clearTimer 61 shrunk_query)
   \<and> length (currentGeohashesQueried (clearTimer 61 shrunk_query)) = 30
   \<and> length (listeners (clearTimer 61 shrunk_query)) = 30
   \<and> geohashCleanupScheduled (clearTimer 61 shrunk_query) = True
   \<and> timer_fires 0 (clearTimer 61 shrunk_query) = (Inr (), clearTimer 61 shrunk_query)"
  by code_simp

text \<open>Called on the query itself, the same cleanup leaves exactly the five wanted
  ranges and their listeners.\<close>

lemma cleanup_with_receiver_would_work:
  "fst (cleanUpCurrentGeohashesQueried The_query shrunk_query) = Inr ()
   \<and> dict_keys (currentGeohashesQueried (snd (cleanUpCurrentGeohashesQueried The_query shrunk_query)))
       = map range_key [0 ..< 5]
   \<and> map listener_id (listeners (snd (cleanUpCurrentGeohashesQueried The_query shrunk_query)))
       = [1, 3, 5, 7, 9]
   \<and> timers (snd (cleanUpCurrentGeohashesQueried The_query shrunk_query)) = [interval_timer 0]"
  by code_simp

section \<open>The constructor\<close>

text \<open>
  Claim C8 on criteria without a radius. The constructor throws, no listener has
  been added to the store, but the interval of the periodic cleanup, which the
  constructor sets up before it validates the criteria, is scheduled and stays so.
\<close>

theorem constructor_throws_after_setInterval:
  "fst (new_GeoFirestoreQuery (JObj []) (JObj [(''center'', JArr [JNum 0, JNum 0])]) example_env)
     = Inl Criteria_center_and_radius
   \<and> timers (snd (new_GeoFirestoreQuery (JObj []) (JObj [(''center'', JArr [JNum 0, JNum 0])]) example_env))
     = [interval_timer 0]
   \<and> listeners (snd (new_GeoFirestoreQuery (JObj []) (JObj [(''center'', JArr [JNum 0, JNum 0])]) example_env))
     = []
   \<and> timers example_env = []"
proof -
  have v: "validateCriteria (JObj [(''center'', JArr [JNum 0, JNum 0])]) True
             = Inl Criteria_center_and_radius"
    by code_simp
  show ?thesis
    by (simp add: new_GeoFirestoreQuery_def is_plain_object_def v setInterval_cleanUp_def
        initial_state_def example_env_def interval_timer_def Let_def)
qed

section \<open>Bounds on the real functions of the distance and of the coverage\<close>

text \<open>Polynomial bounds of \<open>arctan\<close>, \<open>cos\<close> and \<open>sin\<close> from their derivatives, and bounds
  of \<open>pi\<close> from the formula of Machin.\<close>

lemma arctan_le_self: "0 \<le> x \<Longrightarrow> arctan x \<le> (x::real)"
proof -
  assume x: "0 \<le> x"
  have "x - arctan x \<ge> 0 - arctan 0"
  proof (rule DERIV_nonneg_imp_nondecreasing [OF x])
    fix t :: real assume "0 \<le> t" "t \<le> x"
    have "((\<lambda>t. t - arctan t) has_real_derivative (1 - inverse (1 + t\<^sup>2))) (at t)"
      by (auto intro!: derivative_eq_intros)
    moreover have "0 \<le> 1 - inverse (1 + t\<^sup>2)"
      by (simp add: inverse_le_1_iff) 
    ultimately show "\<exists>y. ((\<lambda>t. t - arctan t) has_real_derivative y) (at t) \<and> 0 \<le> y"
      by blast
  qed
  then show ?thesis by simp
qed

lemma arctan_lower3: "0 \<le> x \<Longrightarrow> x - x ^ 3 / 3 \<le> arctan (x::real)"
proof -
  assume x: "0 \<le> x"
  have "arctan x - (x - x ^ 3 / 3) \<ge> arctan 0 - (0 - 0 ^ 3 / 3)"
  proof (rule DERIV_nonneg_imp_nondecreasing [OF x])
    fix t :: real assume "0 \<le> t" "t \<le> x"
    have "((\<lambda>t. arctan t - (t - t ^ 3 / 3)) has_real_derivative (inverse (1 + t\<^sup>2) - (1 - t\<^sup>2))) (at t)"
      by (auto intro!: derivative_eq_intros)
    moreover have "0 \<le> inverse (1 + t\<^sup>2) - (1 - t\<^sup>2)"
    proof -
      have "(1 - t\<^sup>2) * (1 + t\<^sup>2) = 1 - (t\<^sup>2)\<^sup>2" by algebra
      then have "(1 - t\<^sup>2) * (1 + t\<^sup>2) \<le> 1" by simp
      moreover have "0 < 1 + t\<^sup>2" by (simp add: add_pos_nonneg)
      ultimately have "1 - t\<^sup>2 \<le> 1 / (1 + t\<^sup>2)" by (simp add: pos_le_divide_eq)
      then show ?thesis by (simp add: inverse_eq_divide)
    qed
    ultimately show "\<exists>y. ((\<lambda>t. arctan t - (t - t ^ 3 / 3)) has_real_derivative y) (at t) \<and> 0 \<le> y"
      by blast
  qed
  then show ?thesis by simp
qed

lemma arctan_upper5: "0 \<le> x \<Longrightarrow> arctan (x::real) \<le> x - x ^ 3 / 3 + x ^ 5 / 5"
proof -
  assume x: "0 \<le> x"
  have "(x - x ^ 3 / 3 + x ^ 5 / 5) - arctan x \<ge> (0 - 0 ^ 3 / 3 + 0 ^ 5 / 5) - arctan 0"
  proof (rule DERIV_nonneg_imp_nondecreasing [OF x])
    fix t :: real assume "0 \<le> t" "t \<le> x"
    have "((\<lambda>t. (t - t ^ 3 / 3 + t ^ 5 / 5) - arctan t) has_real_derivative
            ((1 - t\<^sup>2 + t ^ 4) - inverse (1 + t\<^sup>2))) (at t)"
      by (auto intro!: derivative_eq_intros)
    moreover have "0 \<le> (1 - t\<^sup>2 + t ^ 4) - inverse (1 + t\<^sup>2)"
    proof -
      have "(1 - t\<^sup>2 + t ^ 4) * (1 + t\<^sup>2) = 1 + (t ^ 3)\<^sup>2" by algebra
      then have "1 \<le> (1 - t\<^sup>2 + t ^ 4) * (1 + t\<^sup>2)" by simp
      moreover have "0 < 1 + t\<^sup>2" by (simp add: add_pos_nonneg)
      ultimately have "1 / (1 + t\<^sup>2) \<le> 1 - t\<^sup>2 + t ^ 4" by (simp add: pos_divide_le_eq)
      then show ?thesis by (simp add: inverse_eq_divide)
    qed
    ultimately show "\<exists>y. ((\<lambda>t. (t - t ^ 3 / 3 + t ^ 5 / 5) - arctan t) has_real_derivative y) (at t) \<and> 0 \<le> y"
      by blast
  qed
  then show ?thesis by simp
qed

lemma pi_bounds: "314 / 100 < pi" "pi < 31417 / 10000"
proof -
  have m: "pi = 16 * arctan (1 / 5) - 4 * arctan (1 / 239)"
    using machin by simp
  have "(1 / 5 :: real) - (1 / 5) ^ 3 / 3 = 74 / 375"
    by (simp add: eval_nat_numeral)
  with arctan_lower3 [of "1 / 5"] have a1: "74 / 375 \<le> arctan (1 / 5 :: real)"
    by simp
  have "(1 / 5 :: real) - (1 / 5) ^ 3 / 3 + (1 / 5) ^ 5 / 5 = 9253 / 46875"
    by (simp add: eval_nat_numeral)
  with arctan_upper5 [of "1 / 5"] have a2: "arctan (1 / 5 :: real) \<le> 9253 / 46875"
    by simp
  have "(1 / 239 :: real) - (1 / 239) ^ 3 / 3 = 171362 / 40955757"
    by (simp add: eval_nat_numeral)
  with arctan_lower3 [of "1 / 239"] have b1: "171362 / 40955757 \<le> arctan (1 / 239 :: real)"
    by simp
  have b2: "arctan (1 / 239 :: real) \<le> 1 / 239"
    by (rule arctan_le_self) simp
  from a1 b2 show "314 / 100 < pi" unfolding m by linarith
  from a2 b1 show "pi < 31417 / 10000" unfolding m by linarith
qed

lemma cos_lower2: "0 \<le> x \<Longrightarrow> 1 - x\<^sup>2 / 2 \<le> cos (x::real)"
proof -
  assume x: "0 \<le> x"
  have "cos x - (1 - x\<^sup>2 / 2) \<ge> cos 0 - (1 - 0\<^sup>2 / 2)"
  proof (rule DERIV_nonneg_imp_nondecreasing [OF x])
    fix t :: real assume t: "0 \<le> t" "t \<le> x"
    have "((\<lambda>t. cos t - (1 - t\<^sup>2 / 2)) has_real_derivative (- sin t + t)) (at t)"
      by (auto intro!: derivative_eq_intros)
    moreover have "0 \<le> - sin t + t" using sin_x_le_x [OF t(1)] by simp
    ultimately show "\<exists>y. ((\<lambda>t. cos t - (1 - t\<^sup>2 / 2)) has_real_derivative y) (at t) \<and> 0 \<le> y"
      by blast
  qed
  then show ?thesis by simp
qed

lemma sin_lower3: "0 \<le> x \<Longrightarrow> x - x ^ 3 / 6 \<le> sin (x::real)"
proof -
  assume x: "0 \<le> x"
  have "sin x - (x - x ^ 3 / 6) \<ge> sin 0 - (0 - 0 ^ 3 / 6)"
  proof (rule DERIV_nonneg_imp_nondecreasing [OF x])
    fix t :: real assume t: "0 \<le> t" "t \<le> x"
    have "((\<lambda>t. sin t - (t - t ^ 3 / 6)) has_real_derivative (cos t - (1 - t\<^sup>2 / 2))) (at t)"
      by (auto intro!: derivative_eq_intros)
    moreover have "0 \<le> cos t - (1 - t\<^sup>2 / 2)" using cos_lower2 [OF t(1)] by simp
    ultimately show "\<exists>y. ((\<lambda>t. sin t - (t - t ^ 3 / 6)) has_real_derivative y) (at t) \<and> 0 \<le> y"
      by blast
  qed
  then show ?thesis by simp
qed

section \<open>Distances on the equator and near it\<close>

lemma validateLocation_to_js:
  "validateLocation (to_js l) =
     (if - 90 \<le> fst l \<and> fst l \<le> 90 \<and> - 180 \<le> snd l \<and> snd l \<le> 180 then Inr ()
      else Inl Invalid_location)"
  by (auto simp: validateLocation_def to_js_def not_a_number_def num_of_def Let_def)

lemma distance_on_equator:
  assumes a: "- 180 \<le> a" "a \<le> 180" and b: "- 180 \<le> b" "b \<le> 180" and d: "\<bar>b - a\<bar> < 180"
  shows "distance (0, a) (0, b) = Inr (6371 * (\<bar>b - a\<bar> * pi / 180))"
proof -
  define x where "x = \<bar>b - a\<bar> * pi / 180"
  have x0: "0 \<le> x" by (simp add: x_def)
  have "\<bar>b - a\<bar> * pi < 180 * pi" using d by simp
  then have xpi: "x < pi" by (simp add: x_def)
  have half: "0 \<le> x / 2" "x / 2 < pi / 2" using x0 xpi by simp_all
  have s0: "0 \<le> sin (x / 2)" using half by (intro sin_ge_zero) simp_all
  have c0: "0 < cos (x / 2)" using half by (intro cos_gt_zero_pi) simp_all
  have sq: "sin (degreesToRadians (b - a) / 2) * sin (degreesToRadians (b - a) / 2)
             = (sin (x / 2))\<^sup>2"
  proof (cases "0 \<le> b - a")
    case True
    then show ?thesis by (simp add: degreesToRadians_def x_def power2_eq_square)
  next
    case False
    then have ab: "\<bar>b - a\<bar> = - (b - a)" by simp
    have "degreesToRadians (b - a) / 2 = - (x / 2)"
      unfolding degreesToRadians_def x_def ab by (simp add: field_simps)
    then show ?thesis by (simp add: power2_eq_square)
  qed
  have r1: "sqrt ((sin (x / 2))\<^sup>2) = sin (x / 2)" using s0 by simp
  have "1 - (sin (x / 2))\<^sup>2 = (cos (x / 2))\<^sup>2"
    using sin_cos_squared_add [of "x / 2"] by linarith
  then have r2: "sqrt (1 - (sin (x / 2))\<^sup>2) = cos (x / 2)" using c0 by simp
  have "atan2 (sin (x / 2)) (cos (x / 2)) = arctan (tan (x / 2))"
    using c0 by (simp add: atan2_def tan_def)
  also have "\<dots> = x / 2" using half by (intro arctan_tan) simp_all
  finally have at: "atan2 (sin (x / 2)) (cos (x / 2)) = x / 2" .
  show ?thesis
    using a b
    by (simp add: distance_def validateLocation_to_js Let_def degreesToRadians_def [of 0]
        sq r1 r2 at abs_of_nonneg [OF s0] x_def [symmetric])
qed

lemma distance_near_equator:
  "distance (0, 1 / 200) (0, 0) = Inr (6371 * (1 / 200 * pi / 180))"
  "555 / 1000 < 6371 * (1 / 200 * pi / 180)"
  "6371 * (1 / 200 * pi / 180) < 557 / 1000"
proof -
  show "distance (0, 1 / 200) (0, 0) = Inr (6371 * (1 / 200 * pi / 180))"
    using distance_on_equator [of "1 / 200" 0] by simp
  show "555 / 1000 < 6371 * (1 / 200 * pi / 180)" using pi_bounds by simp
  show "6371 * (1 / 200 * pi / 180) < 557 / 1000" using pi_bounds by simp
qed

lemma distance_diagonal:
  "\<exists>d. distance (1 / 50, 1 / 50) (0, 0) = Inr d \<and> 313 / 100 < d \<and> d < 317 / 100"
proof -
  define D where "D = pi / 9000"
  define s where "s = sin (D / 2)"
  define a where "a = s * s + cos D * s * s"
  have Dl: "314 / 100 / 9000 < D" and Dh: "D < 31417 / 10000 / 9000"
    using pi_bounds by (simp_all add: D_def)
  have h0: "0 \<le> D / 2" and hl: "17444 / 10 ^ 8 \<le> D / 2" and hh: "D / 2 \<le> 17454 / 10 ^ 8"
    using Dl Dh by simp_all
  have "(D / 2) ^ 3 \<le> (17454 / 10 ^ 8) ^ 3"
    using h0 hh by (rule power_mono [rotated]) 
  moreover have "(17454 / 10 ^ 8 :: real) ^ 3 \<le> 6 / 10 ^ 12" by (simp add: power_divide)
  ultimately have cube: "(D / 2) ^ 3 / 6 \<le> 1 / 10 ^ 12" by linarith
  have s_hi: "s \<le> 17454 / 10 ^ 8"
    using sin_x_le_x [OF h0] hh by (simp add: s_def)
  have s_lo: "17444 / 10 ^ 8 - 1 / 10 ^ 12 \<le> s"
    using sin_lower3 [OF h0] hl cube unfolding s_def by linarith
  have s0: "0 \<le> s" using s_lo by simp
  have D0: "0 \<le> D" using Dl by simp
  have "D\<^sup>2 \<le> (35 / 10 ^ 5)\<^sup>2"
    using D0 Dh by (intro power_mono) simp_all
  moreover have "(35 / 10 ^ 5 :: real)\<^sup>2 \<le> 124 / 10 ^ 9" by (simp add: power_divide)
  ultimately have "D\<^sup>2 / 2 \<le> 62 / 10 ^ 9" by linarith
  with cos_lower2 [OF D0] have c_lo: "1 - 62 / 10 ^ 9 \<le> cos D" by linarith
  have c_hi: "cos D \<le> 1" by simp
  have ss_lo: "(17444 / 10 ^ 8 - 1 / 10 ^ 12)\<^sup>2 \<le> s\<^sup>2"
    using s_lo by (intro power_mono) simp_all
  have ss_hi: "s\<^sup>2 \<le> (17454 / 10 ^ 8)\<^sup>2"
    using s0 s_hi by (intro power_mono) simp_all
  have a_eq: "a = s\<^sup>2 * (1 + cos D)" by (simp add: a_def power2_eq_square algebra_simps)
  have "(17444 / 10 ^ 8 - 1 / 10 ^ 12)\<^sup>2 * (1 + (1 - 62 / 10 ^ 9)) \<le> s\<^sup>2 * (1 + cos D)"
    using ss_lo c_lo by (intro mult_mono) simp_all
  moreover have "608 / 10 ^ 10 \<le> (17444 / 10 ^ 8 - 1 / 10 ^ 12 :: real)\<^sup>2 * (1 + (1 - 62 / 10 ^ 9))"
    by (simp add: power_divide power2_eq_square)
  ultimately have a_lo: "608 / 10 ^ 10 \<le> a" unfolding a_eq by linarith
  have "s\<^sup>2 * (1 + cos D) \<le> (17454 / 10 ^ 8)\<^sup>2 * 2"
    using ss_hi c_hi c_lo by (intro mult_mono) simp_all
  moreover have "(17454 / 10 ^ 8 :: real)\<^sup>2 * 2 \<le> 61 / 10 ^ 9"
    by (simp add: power_divide)
  ultimately have a_hi: "a \<le> 61 / 10 ^ 9" unfolding a_eq by linarith
  have a0: "0 \<le> a" using a_lo by simp
  have "(2465 / 10 ^ 7 :: real)\<^sup>2 \<le> 608 / 10 ^ 10" by (simp add: power_divide)
  with a_lo have "(2465 / 10 ^ 7)\<^sup>2 \<le> a" by linarith
  then have r_lo: "2465 / 10 ^ 7 \<le> sqrt a" by (rule real_le_rsqrt)
  have "61 / 10 ^ 9 \<le> (247 / 10 ^ 6 :: real)\<^sup>2" by (simp add: power_divide)
  with a_hi have "a \<le> (247 / 10 ^ 6)\<^sup>2" by linarith
  then have r_hi: "sqrt a \<le> 247 / 10 ^ 6" by (intro real_le_lsqrt) simp_all
  have "(1 - 1 / 10 ^ 7 :: real)\<^sup>2 \<le> 1 - 61 / 10 ^ 9" by (simp add: power2_eq_square)
  with a_hi have "(1 - 1 / 10 ^ 7)\<^sup>2 \<le> 1 - a" by linarith
  then have q_lo: "1 - 1 / 10 ^ 7 \<le> sqrt (1 - a)" by (rule real_le_rsqrt)
  have q_hi: "sqrt (1 - a) \<le> 1"
    using a0 by simp
  have q0: "0 < sqrt (1 - a)" using a_hi by simp
  define t where "t = sqrt a / sqrt (1 - a)"
  have t_lo: "2465 / 10 ^ 7 \<le> t"
  proof -
    have "sqrt a \<le> t" unfolding t_def using q0 q_hi a0
      by (simp add: pos_le_divide_eq mult_left_le)
    with r_lo show ?thesis by linarith
  qed
  have t_hi: "t \<le> 248 / 10 ^ 6"
  proof -
    have "t \<le> (247 / 10 ^ 6) / (1 - 1 / 10 ^ 7)"
      unfolding t_def using r_hi q_lo by (intro frac_le) simp_all
    then show ?thesis by simp
  qed
  have t0: "0 \<le> t" using t_lo by simp
  have "t ^ 3 \<le> (248 / 10 ^ 6) ^ 3" using t0 t_hi by (rule power_mono [rotated])
  moreover have "(248 / 10 ^ 6 :: real) ^ 3 \<le> 3 / 10 ^ 10" by (simp add: power_divide)
  ultimately have t3: "t ^ 3 / 3 \<le> 1 / 10 ^ 10" by linarith
  have at_hi: "arctan t \<le> 248 / 10 ^ 6" using arctan_le_self [OF t0] t_hi by linarith
  have at_lo: "2465 / 10 ^ 7 - 1 / 10 ^ 10 \<le> arctan t"
    using arctan_lower3 [OF t0] t_lo t3 by linarith
  have at: "atan2 (sqrt a) (sqrt (1 - a)) = arctan t"
    using q0 by (simp add: atan2_def t_def)
  have d: "distance (1 / 50, 1 / 50) (0, 0) = Inr (6371 * (2 * arctan t))"
  proof -
    have 1: "degreesToRadians (0 - 1 / 50) / 2 = - (D / 2)"
      by (simp add: degreesToRadians_def D_def)
    have 2: "degreesToRadians (1 / 50) = D" "degreesToRadians 0 = 0"
      by (simp_all add: degreesToRadians_def D_def)
    have 3: "sin (- (D / 2)) * sin (- (D / 2)) + cos D * cos 0 * sin (- (D / 2)) * sin (- (D / 2)) = a"
      by (simp add: a_def s_def)
    show ?thesis
      unfolding distance_def validateLocation_to_js Let_def
      by (simp only: fst_conv snd_conv 1 2 3 at) simp
  qed
  have "313 / 100 < 6371 * (2 * arctan t)" using at_lo by simp
  moreover have "6371 * (2 * arctan t) < 317 / 100" using at_hi by simp
  ultimately show ?thesis using d by blast
qed

section \<open>The degrees of longitude of 1000 metres near the equator\<close>

lemma metersToLongitudeDegrees_minus:
  "metersToLongitudeDegrees d (- lat) = metersToLongitudeDegrees d lat"
  by (simp add: metersToLongitudeDegrees_def degreesToRadians_def Let_def)

lemma sqrt_ge_self: "0 \<le> y \<Longrightarrow> y \<le> 1 \<Longrightarrow> y \<le> sqrt (y::real)"
proof -
  assume y: "0 \<le> y" "y \<le> 1"
  then have "y * y \<le> 1 * y" by (intro mult_right_mono) simp_all
  then have "y\<^sup>2 \<le> y" by (simp add: power2_eq_square)
  then show ?thesis by (rule real_le_rsqrt)
qed

lemma longDegs_bounds_nonneg:
  assumes lat: "0 \<le> lat" "lat \<le> 1 / 100"
  shows "898 / 100000 \<le> metersToLongitudeDegrees 1000 lat"
    and "metersToLongitudeDegrees 1000 lat \<le> 899 / 100000"
proof -
  define x where "x = degreesToRadians lat"
  have x0: "0 \<le> x" using lat by (simp add: x_def degreesToRadians_def)
  have "lat * pi \<le> (1 / 100) * (31417 / 10000)"
    using lat pi_bounds by (intro mult_mono) simp_all
  then have "lat * pi \<le> 31417 / 1000000" by simp
  then have "lat * pi / 180 \<le> 2 / 10000" by linarith
  then have xh: "x \<le> 2 / 10 ^ 4" unfolding x_def degreesToRadians_def by simp
  have "x\<^sup>2 \<le> (2 / 10 ^ 4)\<^sup>2" using x0 xh by (intro power_mono) simp_all
  moreover have "(2 / 10 ^ 4 :: real)\<^sup>2 = 4 / 10 ^ 8" by (simp add: power_divide)
  ultimately have x2: "x\<^sup>2 \<le> 4 / 10 ^ 8" by simp
  have c_lo: "1 - 2 / 10 ^ 8 \<le> cos x" using cos_lower2 [OF x0] x2 by linarith
  have c_hi: "cos x \<le> 1" by simp
  have s0: "0 \<le> sin x" using x0 xh pi_bounds by (intro sin_ge_zero) simp_all
  have s_hi: "sin x \<le> 2 / 10 ^ 4" using sin_x_le_x [OF x0] xh by linarith
  have "sin x * sin x \<le> (2 / 10 ^ 4) * (2 / 10 ^ 4)" using s0 s_hi by (intro mult_mono) simp_all
  then have ss: "sin x * sin x \<le> 4 / 10 ^ 8" by simp
  have ss0: "0 \<le> sin x * sin x" by simp
  define y where "y = 1 - g_E2 * sin x * sin x"
  have "g_E2 * (sin x * sin x) \<le> g_E2 * (4 / 10 ^ 8)"
    using ss by (intro mult_left_mono) (simp_all add: g_E2_def)
  then have y_lo: "1 - 3 / 10 ^ 10 \<le> y" by (simp add: y_def g_E2_def mult.assoc)
  have "0 \<le> g_E2 * (sin x * sin x)" using s0 by (intro mult_nonneg_nonneg) (simp_all add: g_E2_def)
  then have y_hi: "y \<le> 1" by (simp add: y_def mult.assoc)
  have y0: "0 \<le> y" using y_lo by simp
  have q_lo: "1 - 3 / 10 ^ 10 \<le> sqrt y" using sqrt_ge_self [OF y0 y_hi] y_lo by linarith
  have q_hi: "sqrt y \<le> 1" using y_hi by simp
  have "0 < y" using y_lo by simp
  then have q0: "0 < sqrt y" by simp
  define num where "num = cos x * g_EARTH_EQ_RADIUS * pi / 180"
  have n_lo: "111263 \<le> num"
  proof -
    have "(1 - 2 / 10 ^ 8) * (314 / 100) \<le> cos x * pi"
      using c_lo pi_bounds by (intro mult_mono) simp_all
    then show ?thesis by (simp add: num_def g_EARTH_EQ_RADIUS_def)
  qed
  have n_hi: "num \<le> 111324"
  proof -
    have "cos x * pi \<le> 1 * (31417 / 10000)"
      using c_hi pi_bounds by (intro mult_mono) simp_all
    then show ?thesis by (simp add: num_def g_EARTH_EQ_RADIUS_def)
  qed
  define dd where "dd = num * (1 / sqrt y)"
  have dd_eq: "dd = num / sqrt y" by (simp add: dd_def)
  have d_lo: "111263 \<le> dd"
  proof -
    have "num \<le> num / sqrt y" using q0 q_hi n_lo
      by (simp add: pos_le_divide_eq mult_left_le)
    with n_lo show ?thesis by (simp add: dd_eq)
  qed
  have d_hi: "dd \<le> 111325"
  proof -
    have a: "num / sqrt y \<le> 111324 / (1 - 3 / 10 ^ 10)"
      using n_hi n_lo q_lo by (intro frac_le) simp_all
    have b: "111324 / (1 - 3 / 10 ^ 10) \<le> (111325 :: real)" by simp
    from a b show ?thesis unfolding dd_eq by (rule order_trans)
  qed
  have "metersToLongitudeDegrees 1000 lat =
      (if dd < g_EPSILON then (if (1000::real) > 0 then 360 else 0) else min 360 (1000 / dd))"
    unfolding metersToLongitudeDegrees_def Let_def dd_def num_def y_def x_def by (rule refl)
  moreover have "\<not> dd < g_EPSILON" using d_lo by (simp add: g_EPSILON_def)
  ultimately have m: "metersToLongitudeDegrees 1000 lat = min 360 (1000 / dd)"
    by (simp only: if_False)
  have l1: "898 / 100000 \<le> 1000 / dd"
  proof -
    have "1000 / 111325 \<le> 1000 / dd" using d_lo d_hi by (intro divide_left_mono) simp_all
    then show ?thesis by simp
  qed
  have l2: "1000 / dd \<le> 899 / 100000"
  proof -
    have "1000 / dd \<le> 1000 / 111263" using d_lo by (intro divide_left_mono) simp_all
    then show ?thesis by simp
  qed
  from l2 have "min 360 (1000 / dd) = 1000 / dd" by simp
  with m have m': "metersToLongitudeDegrees 1000 lat = 1000 / dd" by (rule trans)
  show "898 / 100000 \<le> metersToLongitudeDegrees 1000 lat"
    unfolding m' by (rule l1)
  show "metersToLongitudeDegrees 1000 lat \<le> 899 / 100000"
    unfolding m' by (rule l2)
qed

lemma longDegs_bounds:
  assumes "\<bar>lat\<bar> \<le> 1 / 100"
  shows "898 / 100000 \<le> metersToLongitudeDegrees 1000 lat"
    and "metersToLongitudeDegrees 1000 lat \<le> 899 / 100000"
proof -
  have "metersToLongitudeDegrees 1000 lat = metersToLongitudeDegrees 1000 \<bar>lat\<bar>"
    by (cases "0 \<le> lat") (simp_all add: abs_if metersToLongitudeDegrees_minus)
  moreover have "0 \<le> \<bar>lat\<bar>" by simp
  ultimately show "898 / 100000 \<le> metersToLongitudeDegrees 1000 lat"
    and "metersToLongitudeDegrees 1000 lat \<le> 899 / 100000"
    using longDegs_bounds_nonneg [OF _ assms] by simp_all
qed

lemma floor_latitudeBits: "\<lfloor>latitudeBitsForResolution 1000\<rfloor> = 14"
proof -
  have f: "\<lfloor>log 2 (40007860 / 2 / 1000 :: real)\<rfloor> = 14"
    by (subst floor_log_eq_powr_iff) simp_all
  then have "log 2 (40007860 / 2 / 1000 :: real) < 110"
    unfolding floor_eq_iff by simp
  then have "latitudeBitsForResolution 1000 = log 2 (40007860 / 2 / 1000)"
    by (simp add: latitudeBitsForResolution_def g_EARTH_MERI_CIRCUMFERENCE_def
        g_MAXIMUM_BITS_PRECISION_def g_BITS_PER_CHAR_def min_def)
  with f show ?thesis by simp
qed

lemma floor_longitudeBits:
  assumes "\<bar>lat\<bar> \<le> 1 / 100"
  shows "\<lfloor>longitudeBitsForResolution 1000 lat\<rfloor> = 15"
proof -
  define L where "L = metersToLongitudeDegrees 1000 lat"
  have lo: "898 / 100000 \<le> L" and hi: "L \<le> 899 / 100000"
    using longDegs_bounds [OF assms] by (simp_all add: L_def)
  have L0: "0 < L" using lo by simp
  have "360 / (899 / 100000) \<le> 360 / L" using lo hi L0 by (intro divide_left_mono) simp_all
  then have a: "2 powr 15 \<le> 360 / L" by simp
  have "360 / L \<le> 360 / (898 / 100000)" using lo hi L0 by (intro divide_left_mono) simp_all
  then have b: "360 / L < 2 powr 16" by simp
  have q0: "0 < 360 / L" using L0 by simp
  have f: "\<lfloor>log 2 (360 / L)\<rfloor> = 15"
    using a b by (subst floor_log_eq_powr_iff [OF q0]) simp_all
  then have "1 \<le> log 2 (360 / L)" unfolding floor_eq_iff by simp
  then have m: "max 1 (log 2 (360 / L)) = log 2 (360 / L)" by simp
  have "longitudeBitsForResolution 1000 lat =
      (if \<bar>L\<bar> > 1 / 1000000 then max 1 (log 2 (360 / L)) else 1)"
    unfolding longitudeBitsForResolution_def Let_def L_def by (rule refl)
  moreover have "\<bar>L\<bar> > 1 / 1000000" using lo by simp
  ultimately have "longitudeBitsForResolution 1000 lat = log 2 (360 / L)"
    using m by (simp only: if_True)
  with f show ?thesis by simp
qed


section \<open>A key that enters the query and then leaves it\<close>

text \<open>The stored radius is a number of kilometres: \<open>_updateLocation\<close> compares it with
  the result of \<open>GeoFirestore.distance\<close>, which is in kilometres, and only
  \<open>_listenForNewGeohashes\<close> multiplies it by 1000 for the coverage.\<close>

lemma map_of_dict_set_same: "map_of (dict_set k v d) k = Some v"
  by (induction d) auto

lemma map_of_dict_set_other: "k' \<noteq> k \<Longrightarrow> map_of (dict_set k v d) k' = map_of d k'"
  by (induction d) auto

lemma decode_stored_record:
  "decodeGeoFireObject (stored_record gh l) = Inr (to_js l)"
  "decodeGeoFireDocumentObject (stored_record gh l) = Inr (JStr ''doc'')"
  by (simp_all add: decodeGeoFireObject_def decodeGeoFireDocumentObject_def stored_record_def
      js_truthy_def has_prop_def get_prop_def is_array_of_two_def to_js_def)

lemma loc_of_to_js [simp]: "loc_of (to_js l) = l"
  by (simp add: loc_of_def to_js_def)

lemma encodeGeohash_default:
  "validateLocation (to_js l) = Inr () \<Longrightarrow>
   \<exists>gh. encodeGeohash l g_GEOHASH_PRECISION = Inr gh"
  by (simp add: encodeGeohash_def g_GEOHASH_PRECISION_def)

text \<open>What \<open>_updateLocation\<close> does when the callbacks only return.\<close>

lemma fire_one_callback:
  assumes "get_callbacks (callbacks st) ev = [cb]" "cb_action cb = Returns"
  shows "fireCallbacksForKey ev k (Some l) (Some d) doc st
     = (Inr (), st\<lparr>calls := calls st @ [Key_invoked ev (cb_id cb) k (Some l) (Some d) doc]\<rparr>)"
  using assms by (simp add: fireCallbacksForKey_def invoke_def Let_def)

lemma geohash_A_far:
  "encodeGeohash (1 / 50, 1 / 50) g_GEOHASH_PRECISION = Inr ''s00007wsd0''"
  by (simp add: encodeGeohash_def validateLocation_to_js encodeGeohash_loop.simps Let_def
      base32_at_def js_shl_def to_int32_def g_BASE32_def g_GEOHASH_PRECISION_def)

lemma callbacks_one_each:
  "get_callbacks one_callback_each ''key_entered'' = [cbA]"
  "get_callbacks one_callback_each ''key_exited'' = [cbB]"
  "get_callbacks one_callback_each ''key_moved'' = [cbD]"
  "cb_action cbA = Returns" "cb_action cbB = Returns" "cb_action cbD = Returns"
  "cb_id cbA = 1" "cb_id cbB = 2" "cb_id cbD = 4"
  by (simp_all add: get_callbacks_def one_callback_each_def cbA_def cbB_def cbD_def)

lemma first_observed:
  assumes c: "center st = (0, 0)"
    and d: "distance (0, 1 / 200) (0, 0) = Inr d1" "d1 \<le> radius st"
    and fresh: "map_of (locationsTracked st) ''A'' = None"
    and cbs: "callbacks st = one_callback_each"
  shows "\<exists>gh1. childAddedCallback A_near st =
     (Inr (),
      st\<lparr>locationsTracked :=
           dict_set ''A'' \<lparr>location = (0, 1 / 200), document = JStr ''doc'',
                           distanceFromCenter = d1, isInQuery = True, geohash = gh1\<rparr>
             (locationsTracked st),
         calls := calls st @
           [Key_invoked ''key_entered'' 1 ''A'' (Some (0, 1 / 200)) (Some d1) (JStr ''doc'')]\<rparr>)"
proof -
  have v1: "validateLocation (to_js (0, 1 / 200)) = Inr ()"
    by (simp add: validateLocation_to_js)
  from encodeGeohash_default [OF v1] obtain gh1 where
    g1: "encodeGeohash (0, 1 / 200) g_GEOHASH_PRECISION = Inr gh1" by blast
  define st0 where "st0 = st\<lparr>locationsTracked :=
      dict_set ''A'' \<lparr>location = (0, 1 / 200), document = JStr ''doc'',
                      distanceFromCenter = d1, isInQuery = True, geohash = gh1\<rparr>
        (locationsTracked st)\<rparr>"
  have f0: "fireCallbacksForKey ''key_entered'' ''A'' (Some (0, 1 / 200)) (Some d1) (JStr ''doc'') st0
       = (Inr (), st0\<lparr>calls := calls st0 @
           [Key_invoked ''key_entered'' 1 ''A'' (Some (0, 1 / 200)) (Some d1) (JStr ''doc'')]\<rparr>)"
    using fire_one_callback [of st0 "''key_entered''" cbA] callbacks_one_each cbs
    by (simp add: st0_def)
  have "childAddedCallback A_near st = (Inr (), st0\<lparr>calls := calls st0 @
           [Key_invoked ''key_entered'' 1 ''A'' (Some (0, 1 / 200)) (Some d1) (JStr ''doc'')]\<rparr>)"
    using d f0
    by (simp add: childAddedCallback_def A_near_def geoFirestoreGetKey_def decode_stored_record
        updateLocation_def v1 c fresh g1 Let_def st0_def)
  then show ?thesis by (auto simp: st0_def)
qed

lemma then_modified:
  assumes c: "center st = (0, 0)"
    and d: "distance (1 / 50, 1 / 50) (0, 0) = Inr d2"
    and known: "map_of (locationsTracked st) ''A'' = Some ld" "isInQuery ld" "location ld = (0, 1 / 200)"
    and cbs: "callbacks st = one_callback_each"
  shows "childChangedCallback A_far st =
     (Inr (),
      st\<lparr>locationsTracked :=
           dict_set ''A'' \<lparr>location = (1 / 50, 1 / 50), document = JStr ''doc'',
                           distanceFromCenter = d2, isInQuery = (d2 \<le> radius st),
                           geohash = ''s00007wsd0''\<rparr>
             (locationsTracked st),
         calls := calls st @
           [if d2 \<le> radius st
            then Key_invoked ''key_moved'' 4 ''A'' (Some (1 / 50, 1 / 50)) (Some d2) (JStr ''doc'')
            else Key_invoked ''key_exited'' 2 ''A'' (Some (1 / 50, 1 / 50)) (Some d2) (JStr ''doc'')]\<rparr>)"
proof -
  have v2: "validateLocation (to_js (1 / 50, 1 / 50)) = Inr ()"
    by (simp add: validateLocation_to_js)
  define st0 where "st0 = st\<lparr>locationsTracked :=
           dict_set ''A'' \<lparr>location = (1 / 50, 1 / 50), document = JStr ''doc'',
                           distanceFromCenter = d2, isInQuery = (d2 \<le> radius st),
                           geohash = ''s00007wsd0''\<rparr>
             (locationsTracked st)\<rparr>"
  have fx: "fireCallbacksForKey ''key_exited'' ''A'' (Some (1 / 50, 1 / 50)) (Some d2) (JStr ''doc'') st0
       = (Inr (), st0\<lparr>calls := calls st0 @
           [Key_invoked ''key_exited'' 2 ''A'' (Some (1 / 50, 1 / 50)) (Some d2) (JStr ''doc'')]\<rparr>)"
    using fire_one_callback [of st0 "''key_exited''" cbB] callbacks_one_each cbs
    by (simp add: st0_def)
  have fm: "fireCallbacksForKey ''key_moved'' ''A'' (Some (1 / 50, 1 / 50)) (Some d2) (JStr ''doc'') st0
       = (Inr (), st0\<lparr>calls := calls st0 @
           [Key_invoked ''key_moved'' 4 ''A'' (Some (1 / 50, 1 / 50)) (Some d2) (JStr ''doc'')]\<rparr>)"
    using fire_one_callback [of st0 "''key_moved''" cbD] callbacks_one_each cbs
    by (simp add: st0_def)
  show ?thesis
  proof (cases "d2 \<le> radius st")
    case True
    with fm show ?thesis
      using known d
      by (simp add: childChangedCallback_def A_far_def geoFirestoreGetKey_def decode_stored_record
          updateLocation_def v2 c geohash_A_far Let_def st0_def)
  next
    case False
    with fx show ?thesis
      using known d
      by (simp add: childChangedCallback_def A_far_def geoFirestoreGetKey_def decode_stored_record
          updateLocation_def v2 c geohash_A_far Let_def st0_def)
  qed
qed

lemma then_removed:
  assumes c: "center st = (0, 0)"
    and d: "distance (1 / 50, 1 / 50) (0, 0) = Inr d2"
    and known: "map_of (locationsTracked st) ''A'' = Some ld" "isInQuery ld"
    and cbs: "callbacks st = one_callback_each"
    and nc: "geohashInSomeQuery (in_range ''s00007wsd0'') st = Inr False"
  shows "childRemovedCallback A_near st = (Inr (), st\<lparr>pending_gets := pending_gets st @ [''A'']\<rparr>)"
    and "childRemoved_then null_in_range ''A'' A_far (st\<lparr>pending_gets := pending_gets st @ [''A'']\<rparr>) =
     (Inr (),
      st\<lparr>pending_gets := pending_gets st @ [''A''],
         locationsTracked := dict_delete ''A'' (locationsTracked st),
         calls := calls st @
           [Key_invoked ''key_exited'' 2 ''A'' (Some (1 / 50, 1 / 50)) (Some d2) JNull]\<rparr>)"
proof -
  have v2: "validateLocation (to_js (1 / 50, 1 / 50)) = Inr ()"
    by (simp add: validateLocation_to_js)
  have k: "''A'' \<in> set (dict_keys (locationsTracked st))"
    using known(1) by (auto simp: dict_keys_def dest: map_of_SomeD intro: rev_image_eqI)
  then show "childRemovedCallback A_near st = (Inr (), st\<lparr>pending_gets := pending_gets st @ [''A'']\<rparr>)"
    by (simp add: childRemovedCallback_def A_near_def geoFirestoreGetKey_def Let_def)
  define st3 where "st3 = st\<lparr>pending_gets := pending_gets st @ [''A'']\<rparr>"
  have s3: "center st3 = (0, 0)" "callbacks st3 = one_callback_each"
      "map_of (locationsTracked st3) ''A'' = Some ld"
      "geohashInSomeQuery (in_range ''s00007wsd0'') st3 = Inr False"
    using c cbs known nc by (simp_all add: st3_def geohashInSomeQuery_def)
  define st4 where "st4 = st3\<lparr>locationsTracked := dict_delete ''A'' (locationsTracked st3)\<rparr>"
  have f4: "fireCallbacksForKey ''key_exited'' ''A'' (Some (1 / 50, 1 / 50)) (Some d2) JNull st4
       = (Inr (), st4\<lparr>calls := calls st4 @
            [Key_invoked ''key_exited'' 2 ''A'' (Some (1 / 50, 1 / 50)) (Some d2) JNull]\<rparr>)"
    using fire_one_callback [of st4 "''key_exited''" cbB] callbacks_one_each s3
    by (simp add: st4_def)
  have t: "js_truthy (to_js (1 / 50, 1 / 50))" by (simp add: js_truthy_def to_js_def)
  have "childRemoved_then null_in_range ''A'' A_far st3 = (Inr (), st4\<lparr>calls := calls st4 @
            [Key_invoked ''key_exited'' 2 ''A'' (Some (1 / 50, 1 / 50)) (Some d2) JNull]\<rparr>)"
    using f4 t known(2)
    by (simp add: childRemoved_then_def A_far_def decode_stored_record v2 geohash_A_far s3
        removeLocation_def Let_def d st4_def)
  then show "childRemoved_then null_in_range ''A'' A_far (st\<lparr>pending_gets := pending_gets st @ [''A'']\<rparr>) =
     (Inr (),
      st\<lparr>pending_gets := pending_gets st @ [''A''],
         locationsTracked := dict_delete ''A'' (locationsTracked st),
         calls := calls st @
           [Key_invoked ''key_exited'' 2 ''A'' (Some (1 / 50, 1 / 50)) (Some d2) JNull]\<rparr>)"
    by (simp add: st4_def st3_def)
qed

text \<open>
  Claim C2, as amended: the radius of the query is 1, the number of kilometres that
  1000 metres are. When the key \<open>A\<close> is first observed at \<open>(0, 0.005)\<close>, the one
  \<open>key_entered\<close> callback is called once, with that location and a distance between
  0.555 and 0.557. When \<open>A\<close> is then observed at \<open>(0.02, 0.02)\<close>, the one \<open>key_exited\<close>
  callback is called once, with the new location and a distance between 3.13 and
  3.17, and no other callback is called. The same call is made, with \<open>null\<close> for the
  document, when the store reports the removal of \<open>A\<close> from the ranges listened to
  and the record read afterwards is the one at \<open>(0.02, 0.02)\<close>, provided that the new
  geohash lies in none of those ranges.
\<close>

theorem entered_then_exited:
  assumes c: "center st = (0, 0)" and r: "radius st = 1"
    and fresh: "map_of (locationsTracked st) ''A'' = None"
    and cbs: "callbacks st = one_callback_each"
  shows "\<exists>d1 d2 st1.
      555 / 1000 < d1 \<and> d1 < 557 / 1000 \<and> 313 / 100 < d2 \<and> d2 < 317 / 100
    \<and> childAddedCallback A_near st = (Inr (), st1)
    \<and> calls st1 = calls st @
          [Key_invoked ''key_entered'' 1 ''A'' (Some (0, 1 / 200)) (Some d1) (JStr ''doc'')]
    \<and> fst (childChangedCallback A_far st1) = Inr ()
    \<and> calls (snd (childChangedCallback A_far st1)) = calls st1 @
          [Key_invoked ''key_exited'' 2 ''A'' (Some (1 / 50, 1 / 50)) (Some d2) (JStr ''doc'')]
    \<and> (\<forall>null_in_range.
          geohashInSomeQuery (in_range ''s00007wsd0'') st = Inr False \<longrightarrow>
          fst (childRemoved_then null_in_range ''A'' A_far (snd (childRemovedCallback A_near st1)))
            = Inr ()
          \<and> calls (snd (childRemoved_then null_in_range ''A'' A_far
                           (snd (childRemovedCallback A_near st1)))) = calls st1 @
                [Key_invoked ''key_exited'' 2 ''A'' (Some (1 / 50, 1 / 50)) (Some d2) JNull])"
proof -
  define d1 :: real where "d1 = 6371 * (1 / 200 * pi / 180)"
  have dist1: "distance (0, 1 / 200) (0, 0) = Inr d1" and b1: "555 / 1000 < d1" "d1 < 557 / 1000"
    using distance_near_equator by (simp_all add: d1_def)
  from distance_diagonal obtain d2 where
    dist2: "distance (1 / 50, 1 / 50) (0, 0) = Inr d2" and b2: "313 / 100 < d2" "d2 < 317 / 100"
    by blast
  have in1: "d1 \<le> radius st" using b1 r by simp
  from first_observed [OF c dist1 in1 fresh cbs] obtain gh1 where
    added: "childAddedCallback A_near st =
     (Inr (),
      st\<lparr>locationsTracked :=
           dict_set ''A'' \<lparr>location = (0, 1 / 200), document = JStr ''doc'',
                           distanceFromCenter = d1, isInQuery = True, geohash = gh1\<rparr>
             (locationsTracked st),
         calls := calls st @
           [Key_invoked ''key_entered'' 1 ''A'' (Some (0, 1 / 200)) (Some d1) (JStr ''doc'')]\<rparr>)"
    by blast
  define ld1 where "ld1 = \<lparr>location = (0, 1 / 200), document = JStr ''doc'',
                           distanceFromCenter = d1, isInQuery = True, geohash = gh1\<rparr>"
  define st1 where "st1 = st\<lparr>locationsTracked := dict_set ''A'' ld1 (locationsTracked st),
         calls := calls st @
           [Key_invoked ''key_entered'' 1 ''A'' (Some (0, 1 / 200)) (Some d1) (JStr ''doc'')]\<rparr>"
  have s1: "center st1 = (0, 0)" "radius st1 = 1" "callbacks st1 = one_callback_each"
    "map_of (locationsTracked st1) ''A'' = Some ld1" "isInQuery ld1" "location ld1 = (0, 1 / 200)"
    using c r cbs by (simp_all add: st1_def ld1_def map_of_dict_set_same)
  have out: "\<not> d2 \<le> radius st1" using b2 s1 by simp
  have nc1: "geohashInSomeQuery (in_range ''s00007wsd0'') st1 = Inr False"
    if "geohashInSomeQuery (in_range ''s00007wsd0'') st = Inr False"
    using that by (simp add: st1_def geohashInSomeQuery_def)
  from then_modified [OF s1(1) dist2 s1(4,5,6,3)] out
  have changed: "fst (childChangedCallback A_far st1) = Inr ()"
    "calls (snd (childChangedCallback A_far st1)) = calls st1 @
          [Key_invoked ''key_exited'' 2 ''A'' (Some (1 / 50, 1 / 50)) (Some d2) (JStr ''doc'')]"
    by simp_all
  have removed: "fst (childRemoved_then cmp ''A'' A_far (snd (childRemovedCallback A_near st1)))
            = Inr ()
          \<and> calls (snd (childRemoved_then cmp ''A'' A_far
                           (snd (childRemovedCallback A_near st1)))) = calls st1 @
                [Key_invoked ''key_exited'' 2 ''A'' (Some (1 / 50, 1 / 50)) (Some d2) JNull]"
    if nc: "geohashInSomeQuery (in_range ''s00007wsd0'') st = Inr False" for cmp
    using then_removed(1) [OF s1(1) dist2 s1(4,5,3) nc1 [OF nc]]
      then_removed(2) [OF s1(1) dist2 s1(4,5,3) nc1 [OF nc], where null_in_range = cmp]
    by simp
  have a: "childAddedCallback A_near st = (Inr (), st1)"
    using added by (simp add: st1_def ld1_def)
  have cs: "calls st1 = calls st @
          [Key_invoked ''key_entered'' 1 ''A'' (Some (0, 1 / 200)) (Some d1) (JStr ''doc'')]"
    by (simp add: st1_def)
  from b1 b2 a cs changed removed show ?thesis
    by (intro exI [of _ d1] exI [of _ d2] exI [of _ st1]) simp
qed

text \<open>The theorem at work on the query at \<open>(0, 0)\<close> with radius 1 that listens to the
  four ranges of its coverage.\<close>

theorem entered_then_exited_witness:
  "center kilometre_query = (0, 0) \<and> radius kilometre_query = 1
   \<and> map_of (locationsTracked kilometre_query) ''A'' = None
   \<and> callbacks kilometre_query = one_callback_each
   \<and> geohashInSomeQuery (in_range ''s00007wsd0'') kilometre_query = Inr False
   \<and> (\<exists>d1 d2 st1.
      555 / 1000 < d1 \<and> d1 < 557 / 1000 \<and> 313 / 100 < d2 \<and> d2 < 317 / 100
    \<and> childAddedCallback A_near kilometre_query = (Inr (), st1)
    \<and> calls st1 =
          [Key_invoked ''key_entered'' 1 ''A'' (Some (0, 1 / 200)) (Some d1) (JStr ''doc'')]
    \<and> calls (snd (childChangedCallback A_far st1)) =
          [Key_invoked ''key_entered'' 1 ''A'' (Some (0, 1 / 200)) (Some d1) (JStr ''doc''),
           Key_invoked ''key_exited'' 2 ''A'' (Some (1 / 50, 1 / 50)) (Some d2) (JStr ''doc'')]
    \<and> calls (snd (childRemoved_then (\<lambda>start finish. False) ''A'' A_far
                     (snd (childRemovedCallback A_near st1)))) =
          [Key_invoked ''key_entered'' 1 ''A'' (Some (0, 1 / 200)) (Some d1) (JStr ''doc''),
           Key_invoked ''key_exited'' 2 ''A'' (Some (1 / 50, 1 / 50)) (Some d2) JNull])"
proof -
  have h: "center kilometre_query = (0, 0)" "radius kilometre_query = 1"
    "map_of (locationsTracked kilometre_query) ''A'' = None"
    "callbacks kilometre_query = one_callback_each"
    "calls kilometre_query = []"
    by (simp_all add: kilometre_query_def example_query_def initial_state_def example_env_def)
  have nc: "geohashInSomeQuery (in_range ''s00007wsd0'') kilometre_query = Inr False"
    by code_simp
  from entered_then_exited [OF h(1-4)] obtain d1 d2 st1 where
    *: "555 / 1000 < d1" "d1 < 557 / 1000" "313 / 100 < d2" "d2 < 317 / 100"
     "childAddedCallback A_near kilometre_query = (Inr (), st1)"
     "calls st1 = calls kilometre_query @
          [Key_invoked ''key_entered'' 1 ''A'' (Some (0, 1 / 200)) (Some d1) (JStr ''doc'')]"
     "calls (snd (childChangedCallback A_far st1)) = calls st1 @
          [Key_invoked ''key_exited'' 2 ''A'' (Some (1 / 50, 1 / 50)) (Some d2) (JStr ''doc'')]"
     "\<forall>null_in_range.
          geohashInSomeQuery (in_range ''s00007wsd0'') kilometre_query = Inr False \<longrightarrow>
          fst (childRemoved_then null_in_range ''A'' A_far (snd (childRemovedCallback A_near st1)))
            = Inr ()
          \<and> calls (snd (childRemoved_then null_in_range ''A'' A_far
                           (snd (childRemovedCallback A_near st1)))) = calls st1 @
                [Key_invoked ''key_exited'' 2 ''A'' (Some (1 / 50, 1 / 50)) (Some d2) JNull]"
    by blast
  from *(8) nc have r: "calls (snd (childRemoved_then (\<lambda>start finish. False) ''A'' A_far
                           (snd (childRemovedCallback A_near st1)))) = calls st1 @
                [Key_invoked ''key_exited'' 2 ''A'' (Some (1 / 50, 1 / 50)) (Some d2) JNull]"
    by blast
  show ?thesis
    using h nc *(1-7) r
    by (intro conjI exI [of _ d1] exI [of _ d2] exI [of _ st1]) simp_all
qed

text \<open>
  Claim C2 as it is stated, with the number 1000 as the radius of the query, fails:
  1000 is a number of kilometres, the point at 3.14 km is inside the query, and the
  second observation calls the \<open>key_moved\<close> callback, not the \<open>key_exited\<close> one.
\<close>

theorem entered_then_exited_counterexample:
  "radius thousand_query = 1000 \<and> center thousand_query = (0, 0)
   \<and> calls thousand_query = []
   \<and> fst (childAddedCallback A_near thousand_query) = Inr ()
   \<and> fst (childChangedCallback A_far (snd (childAddedCallback A_near thousand_query))) = Inr ()
   \<and> map invocation_event
        (calls (snd (childChangedCallback A_far (snd (childAddedCallback A_near thousand_query)))))
       = [''key_entered'', ''key_moved'']"
proof -
  have h: "center thousand_query = (0, 0)" "radius thousand_query = 1000"
    "map_of (locationsTracked thousand_query) ''A'' = None"
    "callbacks thousand_query = one_callback_each"
    "calls thousand_query = []"
    by (simp_all add: thousand_query_def example_query_def initial_state_def example_env_def)
  define d1 :: real where "d1 = 6371 * (1 / 200 * pi / 180)"
  have dist1: "distance (0, 1 / 200) (0, 0) = Inr d1" and b1: "d1 < 557 / 1000"
    using distance_near_equator by (simp_all add: d1_def)
  from distance_diagonal obtain d2 where
    dist2: "distance (1 / 50, 1 / 50) (0, 0) = Inr d2" and b2: "d2 < 317 / 100"
    by blast
  have in1: "d1 \<le> radius thousand_query" using b1 h by simp
  from first_observed [OF h(1) dist1 in1 h(3,4)] obtain gh1 where
    added: "childAddedCallback A_near thousand_query =
     (Inr (),
      thousand_query\<lparr>locationsTracked :=
           dict_set ''A'' \<lparr>location = (0, 1 / 200), document = JStr ''doc'',
                           distanceFromCenter = d1, isInQuery = True, geohash = gh1\<rparr>
             (locationsTracked thousand_query),
         calls := calls thousand_query @
           [Key_invoked ''key_entered'' 1 ''A'' (Some (0, 1 / 200)) (Some d1) (JStr ''doc'')]\<rparr>)"
    by blast
  define ld1 where "ld1 = \<lparr>location = (0, 1 / 200), document = JStr ''doc'',
                           distanceFromCenter = d1, isInQuery = True, geohash = gh1\<rparr>"
  define st1 where "st1 = thousand_query\<lparr>locationsTracked := dict_set ''A'' ld1 (locationsTracked thousand_query),
         calls := calls thousand_query @
           [Key_invoked ''key_entered'' 1 ''A'' (Some (0, 1 / 200)) (Some d1) (JStr ''doc'')]\<rparr>"
  have s1: "center st1 = (0, 0)" "radius st1 = 1000" "callbacks st1 = one_callback_each"
    "map_of (locationsTracked st1) ''A'' = Some ld1" "isInQuery ld1" "location ld1 = (0, 1 / 200)"
    "calls st1 = [Key_invoked ''key_entered'' 1 ''A'' (Some (0, 1 / 200)) (Some d1) (JStr ''doc'')]"
    using h by (simp_all add: st1_def ld1_def map_of_dict_set_same)
  have inside: "d2 \<le> radius st1" using b2 s1 by simp
  have a: "childAddedCallback A_near thousand_query = (Inr (), st1)"
    using added by (simp add: st1_def ld1_def)
  from then_modified [OF s1(1) dist2 s1(4,5,6,3)] inside s1(7)
  have "fst (childChangedCallback A_far st1) = Inr ()"
    "map invocation_event (calls (snd (childChangedCallback A_far st1))) = [''key_entered'', ''key_moved'']"
    by (simp_all add: invocation_event_def)
  with a h show ?thesis by simp
qed

section \<open>A point of the circle that the coverage misses\<close>

text \<open>The coverage for 1000 metres around \<open>west_center\<close>: 28 bits, the nine
  coordinates of the bounding box, their geohashes of six characters and the ranges
  of these.\<close>

lemma boundingBoxBits_west_center: "boundingBoxBits west_center 1000 = 28"
proof -
  define latN :: real where "latN = 1000 / g_METERS_PER_DEGREE_LATITUDE"
  have latN: "0 \<le> latN" "latN \<le> 1 / 100"
    by (simp_all add: latN_def g_METERS_PER_DEGREE_LATITUDE_def)
  have e: "boundingBoxBits west_center 1000 =
      min (min (min (\<lfloor>latitudeBitsForResolution 1000\<rfloor> * 2)
                    (\<lfloor>longitudeBitsForResolution 1000 (min 90 (fst west_center + latN))\<rfloor> * 2 - 1))
               (\<lfloor>longitudeBitsForResolution 1000 (max (- 90) (fst west_center - latN))\<rfloor> * 2 - 1))
          g_MAXIMUM_BITS_PRECISION"
    unfolding boundingBoxBits_def Let_def latN_def by (rule refl)
  have n: "min 90 (fst west_center + latN) = latN" using latN by (simp add: west_center_def)
  have s: "max (- 90) (fst west_center - latN) = - latN" using latN by (simp add: west_center_def)
  have fn: "\<lfloor>longitudeBitsForResolution 1000 latN\<rfloor> = 15"
    using latN by (intro floor_longitudeBits) simp
  have fs: "\<lfloor>longitudeBitsForResolution 1000 (- latN)\<rfloor> = 15"
    using latN by (intro floor_longitudeBits) simp
  show ?thesis
    unfolding e n s fn fs floor_latitudeBits
    by (simp add: g_MAXIMUM_BITS_PRECISION_def g_BITS_PER_CHAR_def)
qed

lemma wrapLongitude_id: "- 180 \<le> x \<Longrightarrow> x \<le> 180 \<Longrightarrow> wrapLongitude x = x"
  by (simp add: wrapLongitude_def)

lemma boundingBoxCoordinates_west_center:
  "\<exists>latN L. 904 / 100000 \<le> latN \<and> latN \<le> 905 / 100000 \<and>
      898 / 100000 \<le> L \<and> L \<le> 899 / 100000 \<and>
      boundingBoxCoordinates west_center 1000 =
        [(0, - 899 / 100000), (0, - 899 / 100000 - L), (0, - 899 / 100000 + L),
         (latN, - 899 / 100000), (latN, - 899 / 100000 - L), (latN, - 899 / 100000 + L),
         (- latN, - 899 / 100000), (- latN, - 899 / 100000 - L), (- latN, - 899 / 100000 + L)]"
proof -
  define latN :: real where "latN = 1000 / g_METERS_PER_DEGREE_LATITUDE"
  have latN: "904 / 100000 \<le> latN" "latN \<le> 905 / 100000"
    by (simp_all add: latN_def g_METERS_PER_DEGREE_LATITUDE_def)
  define L where "L = max (metersToLongitudeDegrees 1000 latN) (metersToLongitudeDegrees 1000 (- latN))"
  have "\<bar>latN\<bar> \<le> 1 / 100" using latN by simp
  from longDegs_bounds [OF this] have L: "898 / 100000 \<le> L" "L \<le> 899 / 100000"
    by (simp_all add: L_def metersToLongitudeDegrees_minus)
  have n: "min 90 (fst west_center + latN) = latN" using latN by (simp add: west_center_def)
  have s: "max (- 90) (fst west_center - latN) = - latN" using latN by (simp add: west_center_def)
  have e: "boundingBoxCoordinates west_center 1000 =
     (let latitudeNorth = min 90 (fst west_center + latN);
          latitudeSouth = max (- 90) (fst west_center - latN);
          longDegsNorth = metersToLongitudeDegrees 1000 latitudeNorth;
          longDegsSouth = metersToLongitudeDegrees 1000 latitudeSouth;
          longDegs = max longDegsNorth longDegsSouth
      in [(fst west_center, snd west_center),
          (fst west_center, wrapLongitude (snd west_center - longDegs)),
          (fst west_center, wrapLongitude (snd west_center + longDegs)),
          (latitudeNorth, snd west_center),
          (latitudeNorth, wrapLongitude (snd west_center - longDegs)),
          (latitudeNorth, wrapLongitude (snd west_center + longDegs)),
          (latitudeSouth, snd west_center),
          (latitudeSouth, wrapLongitude (snd west_center - longDegs)),
          (latitudeSouth, wrapLongitude (snd west_center + longDegs))])"
    unfolding boundingBoxCoordinates_def latN_def by (simp only: Let_def)
  have w1: "wrapLongitude (snd west_center - L) = - 899 / 100000 - L"
    using L by (simp add: wrapLongitude_id west_center_def)
  have w2: "wrapLongitude (snd west_center + L) = - 899 / 100000 + L"
    using L by (simp add: wrapLongitude_id west_center_def)
  have c: "fst west_center = 0" "snd west_center = - 899 / 100000"
    by (simp_all add: west_center_def)
  have "boundingBoxCoordinates west_center 1000 =
        [(0, - 899 / 100000), (0, - 899 / 100000 - L), (0, - 899 / 100000 + L),
         (latN, - 899 / 100000), (latN, - 899 / 100000 - L), (latN, - 899 / 100000 + L),
         (- latN, - 899 / 100000), (- latN, - 899 / 100000 - L), (- latN, - 899 / 100000 + L)]"
    unfolding e Let_def n s L_def [symmetric] w1 w2 unfolding c by (rule refl)
  with latN L show ?thesis by blast
qed

lemma encode_s_w:
  assumes "- 905 / 100000 \<le> lat" "lat \<le> - 904 / 100000"
    and "- 1798 / 100000 \<le> lon" "lon \<le> - 1797 / 100000"
  shows "encodeGeohash (lat, lon) 6 = Inr ''7zzzzw''"
  using assms
  by (simp add: encodeGeohash_def validateLocation_to_js encodeGeohash_loop.simps Let_def
      base32_at_def js_shl_def to_int32_def g_BASE32_def)

lemma encode_s_e:
  assumes "- 905 / 100000 \<le> lat" "lat \<le> - 904 / 100000"
    and "- 1 / 100 \<le> lon" "lon \<le> 0"
  shows "encodeGeohash (lat, lon) 6 = Inr ''7zzzzy''"
  using assms
  by (simp add: encodeGeohash_def validateLocation_to_js encodeGeohash_loop.simps Let_def
      base32_at_def js_shl_def to_int32_def g_BASE32_def)

lemma encode_0_w:
  assumes "- 1798 / 100000 \<le> lon" "lon \<le> - 1797 / 100000"
  shows "encodeGeohash (0, lon) 6 = Inr ''7zzzzx''"
  using assms
  by (simp add: encodeGeohash_def validateLocation_to_js encodeGeohash_loop.simps Let_def
      base32_at_def js_shl_def to_int32_def g_BASE32_def)

lemma encode_0_e:
  assumes "- 1 / 100 \<le> lon" "lon \<le> 0"
  shows "encodeGeohash (0, lon) 6 = Inr ''7zzzzz''"
  using assms
  by (simp add: encodeGeohash_def validateLocation_to_js encodeGeohash_loop.simps Let_def
      base32_at_def js_shl_def to_int32_def g_BASE32_def)

lemma encode_n_w:
  assumes "904 / 100000 \<le> lat" "lat \<le> 905 / 100000"
    and "- 1798 / 100000 \<le> lon" "lon \<le> - 1797 / 100000"
  shows "encodeGeohash (lat, lon) 6 = Inr ''ebpbp9''"
  using assms
  by (simp add: encodeGeohash_def validateLocation_to_js encodeGeohash_loop.simps Let_def
      base32_at_def js_shl_def to_int32_def g_BASE32_def)

lemma encode_n_e:
  assumes "904 / 100000 \<le> lat" "lat \<le> 905 / 100000"
    and "- 1 / 100 \<le> lon" "lon \<le> 0"
  shows "encodeGeohash (lat, lon) 6 = Inr ''ebpbpc''"
  using assms
  by (simp add: encodeGeohash_def validateLocation_to_js encodeGeohash_loop.simps Let_def
      base32_at_def js_shl_def to_int32_def g_BASE32_def)

lemma encode_east_point:
  "encodeGeohash east_point 6 = Inr ''kpbpbp''"
  "encodeGeohash east_point g_GEOHASH_PRECISION = Inr ''kpbpbpbpbp''"
  by (simp_all add: east_point_def encodeGeohash_def validateLocation_to_js encodeGeohash_loop.simps Let_def
      base32_at_def js_shl_def to_int32_def g_BASE32_def g_GEOHASH_PRECISION_def)

lemma geohashQuery_28:
  "geohashQuery ''7zzzzz'' 28 = Inr (''7zzzzw'', ''7zzzz~'')"
  "geohashQuery ''7zzzzx'' 28 = Inr (''7zzzzw'', ''7zzzz~'')"
  "geohashQuery ''7zzzzy'' 28 = Inr (''7zzzzw'', ''7zzzz~'')"
  "geohashQuery ''7zzzzw'' 28 = Inr (''7zzzzw'', ''7zzzz~'')"
  "geohashQuery ''ebpbpc'' 28 = Inr (''ebpbp8'', ''ebpbpd'')"
  "geohashQuery ''ebpbp9'' 28 = Inr (''ebpbp8'', ''ebpbpd'')"
  by code_simp+

lemma geohashQueries_west_center:
  "geohashQueries west_center 1000 = Inr [(''7zzzzw'', ''7zzzz~''), (''ebpbp8'', ''ebpbpd'')]"
proof -
  obtain latN L where latN: "904 / 100000 \<le> latN" "latN \<le> 905 / 100000"
    and L: "898 / 100000 \<le> L" "L \<le> 899 / 100000"
    and bc: "boundingBoxCoordinates west_center 1000 =
        [(0, - 899 / 100000), (0, - 899 / 100000 - L), (0, - 899 / 100000 + L),
         (latN, - 899 / 100000), (latN, - 899 / 100000 - L), (latN, - 899 / 100000 + L),
         (- latN, - 899 / 100000), (- latN, - 899 / 100000 - L), (- latN, - 899 / 100000 + L)]"
    using boundingBoxCoordinates_west_center by blast
  define f where "f = (\<lambda>coordinate. case encodeGeohash coordinate 6 of
                           Inl e \<Rightarrow> Inl e
                         | Inr h \<Rightarrow> geohashQuery h 28)"
  have v: "validateLocation (to_js west_center) = Inr ()"
    by (simp add: validateLocation_to_js west_center_def)
  have p: "max 1 (28::int) = 28" "\<lceil>real_of_int 28 / real_of_int g_BITS_PER_CHAR\<rceil> = 6"
    by (simp_all add: g_BITS_PER_CHAR_def)
  have e: "geohashQueries west_center 1000 =
      (case map_throwing f (boundingBoxCoordinates west_center 1000) of
         Inl e \<Rightarrow> Inl e
       | Inr queries \<Rightarrow> Inr (keep_first [] queries))"
    unfolding geohashQueries_def v boundingBoxBits_west_center Let_def p f_def
    by (simp only: sum.case p)
  have f1: "f (0, - 899 / 100000) = Inr (''7zzzzw'', ''7zzzz~'')"
    unfolding f_def by (subst encode_0_e) (simp_all add: geohashQuery_28)
  have f2: "f (0, - 899 / 100000 - L) = Inr (''7zzzzw'', ''7zzzz~'')"
    unfolding f_def using L by (subst encode_0_w) (simp_all add: geohashQuery_28)
  have f3: "f (0, - 899 / 100000 + L) = Inr (''7zzzzw'', ''7zzzz~'')"
    unfolding f_def using L by (subst encode_0_e) (simp_all add: geohashQuery_28)
  have f4: "f (latN, - 899 / 100000) = Inr (''ebpbp8'', ''ebpbpd'')"
    unfolding f_def using latN by (subst encode_n_e) (simp_all add: geohashQuery_28)
  have f5: "f (latN, - 899 / 100000 - L) = Inr (''ebpbp8'', ''ebpbpd'')"
    unfolding f_def using latN L by (subst encode_n_w) (simp_all add: geohashQuery_28)
  have f6: "f (latN, - 899 / 100000 + L) = Inr (''ebpbp8'', ''ebpbpd'')"
    unfolding f_def using latN L by (subst encode_n_e) (simp_all add: geohashQuery_28)
  have f7: "f (- latN, - 899 / 100000) = Inr (''7zzzzw'', ''7zzzz~'')"
    unfolding f_def using latN by (subst encode_s_e) (simp_all add: geohashQuery_28)
  have f8: "f (- latN, - 899 / 100000 - L) = Inr (''7zzzzw'', ''7zzzz~'')"
    unfolding f_def using latN L by (subst encode_s_w) (simp_all add: geohashQuery_28)
  have f9: "f (- latN, - 899 / 100000 + L) = Inr (''7zzzzw'', ''7zzzz~'')"
    unfolding f_def using latN L by (subst encode_s_e) (simp_all add: geohashQuery_28)
  have m: "map_throwing f (boundingBoxCoordinates west_center 1000) =
      Inr [(''7zzzzw'', ''7zzzz~''), (''7zzzzw'', ''7zzzz~''), (''7zzzzw'', ''7zzzz~''),
           (''ebpbp8'', ''ebpbpd''), (''ebpbp8'', ''ebpbpd''), (''ebpbp8'', ''ebpbpd''),
           (''7zzzzw'', ''7zzzz~''), (''7zzzzw'', ''7zzzz~''), (''7zzzzw'', ''7zzzz~'')]"
    unfolding bc by (simp only: map_throwing.simps f1 f2 f3 f4 f5 f6 f7 f8 f9 sum.case)
  show ?thesis unfolding e m by simp
qed

lemma distance_east_point:
  "distance east_point west_center = Inr (6371 * (8991 / 1000000 * pi / 180))"
  "6371 * (8991 / 1000000 * pi / 180) \<le> (1000 / 1000 :: real)"
proof -
  have "distance (0, 1 / 1000000) (0, - 899 / 100000)
      = Inr (6371 * (\<bar>- 899 / 100000 - 1 / 1000000\<bar> * pi / 180))"
    by (rule distance_on_equator) simp_all
  then show "distance east_point west_center = Inr (6371 * (8991 / 1000000 * pi / 180))"
    by (simp add: east_point_def west_center_def)
  show "6371 * (8991 / 1000000 * pi / 180) \<le> (1000 / 1000 :: real)"
    using pi_bounds by simp
qed

text \<open>
  Claim C1 fails at the center \<open>(0, -0.00899)\<close> with a radius of 1000 metres. The
  point \<open>(0, 0.000001)\<close> is 6371 * (0.008991 * pi / 180) kilometres from the center,
  which is less than one kilometre, that is 1000 metres; but its geohash, at the
  precision of the coverage (six characters for 28 bits) and at the default precision
  of ten characters, lies in neither of the two ranges that \<open>geohashQueries\<close> returns.
  The bounding box is computed with the equatorial radius 6378137 m of the ellipsoid
  and reaches 0.00898 to 0.00899 degrees east of the center, the distance with the
  radius 6371 km: the box ends west of the meridian of Greenwich, where the cell of
  the 28 bits ends, and the point lies east of it.
\<close>

theorem coverage_misses_point_in_circle:
  "geohashQueries west_center 1000 = Inr [(''7zzzzw'', ''7zzzz~''), (''ebpbp8'', ''ebpbpd'')]
   \<and> distance east_point west_center = Inr (6371 * (8991 / 1000000 * pi / 180))
   \<and> 6371 * (8991 / 1000000 * pi / 180) \<le> (1000 / 1000 :: real)
   \<and> boundingBoxBits west_center 1000 = 28
   \<and> encodeGeohash east_point 6 = Inr ''kpbpbp''
   \<and> \<not> in_range ''kpbpbp'' ''7zzzzw'' ''7zzzz~''
   \<and> \<not> in_range ''kpbpbp'' ''ebpbp8'' ''ebpbpd''
   \<and> encodeGeohash east_point g_GEOHASH_PRECISION = Inr ''kpbpbpbpbp''
   \<and> \<not> in_range ''kpbpbpbpbp'' ''7zzzzw'' ''7zzzz~''
   \<and> \<not> in_range ''kpbpbpbpbp'' ''ebpbp8'' ''ebpbpd''"
proof -
  have r: "\<not> in_range ''kpbpbp'' ''7zzzzw'' ''7zzzz~''"
    "\<not> in_range ''kpbpbp'' ''ebpbp8'' ''ebpbpd''"
    "\<not> in_range ''kpbpbpbpbp'' ''7zzzzw'' ''7zzzz~''"
    "\<not> in_range ''kpbpbpbpbp'' ''ebpbp8'' ''ebpbpd''"
    by code_simp+
  show ?thesis
    using geohashQueries_west_center distance_east_point boundingBoxBits_west_center
      encode_east_point r
    by (intro conjI)
qed

end
